theory Spec2Isabelle
  imports Complex_Main "HOL-Library.Char_ord" "HOL-Library.List_Lexorder"
    "HOL-Library.Code_Target_Nat"
begin

section \<open>The upload controller of lolisafe, embedded\<close>

text \<open>
  The definitions follow \<^verbatim>\<open>src/controllers/uploadController.js\<close> function by function and
  keep its names. JavaScript values are typed: a string is a \<^typ>\<open>string\<close>, a file's bytes
  are a \<^typ>\<open>string\<close> as well (one character per byte), a finite number that holds hours
  is a \<^typ>\<open>rat\<close> (its exact value), \<^verbatim>\<open>null\<close> and \<^verbatim>\<open>undefined\<close> are \<^term>\<open>None\<close>.
  A \<^verbatim>\<open>throw\<close> is the left summand of a result; a thrown string keeps its text.
\<close>

type_synonym bytes = string

datatype error =
  Msg string      \<comment> \<open>a thrown string, relayed to the client as the description\<close>
| FsError string  \<comment> \<open>an Error object of the file system, by its code\<close>

subsection \<open>Configuration\<close>

record fileIdentifierLength_cfg =
  fil_min :: "int option"      \<comment> \<open>\<^verbatim>\<open>None\<close>: not of type number\<close>
  fil_max :: "int option"
  fil_default :: "int option"
  fil_force :: bool

record config =
  filterNoExtension :: bool
  extensionsFilter :: "string list"       \<comment> \<open>\<^verbatim>\<open>[]\<close> also stands for a value that is no array\<close>
  extensionsFilterMode :: string
  temporaryUploadAges :: "rat list"       \<comment> \<open>hours; \<^verbatim>\<open>[]\<close> also stands for a value that is no array\<close>
  cacheFileIdentifiers :: bool
  filterEmptyFile :: bool
  maxSize :: nat                          \<comment> \<open>\<^verbatim>\<open>parseInt(config.uploads.maxSize)\<close>, in MB\<close>
  chunkSize :: bool                       \<comment> \<open>\<^verbatim>\<open>Boolean(config.uploads.chunkSize)\<close>\<close>
  fileIdentifierLength :: "fileIdentifierLength_cfg option"
  storeIP :: bool                         \<comment> \<open>\<^verbatim>\<open>config.uploads.storeIP !== false\<close>\<close>
  stripTags_on :: bool                    \<comment> \<open>what \<^verbatim>\<open>parseStripTags\<close> answers for the request\<close>
  domain :: string



definition chunkedUploads :: "config \<Rightarrow> bool" where
  "chunkedUploads cfg = chunkSize cfg"

definition extensionsFilter_on :: "config \<Rightarrow> bool" where
  "extensionsFilter_on cfg = (extensionsFilter cfg \<noteq> [])"

definition temporaryUploads :: "config \<Rightarrow> bool" where
  "temporaryUploads cfg = (temporaryUploadAges cfg \<noteq> [])"

text \<open>A configuration to evaluate the functions at: the examples update its fields.\<close>

definition sample_config :: config where
  "sample_config =
     \<lparr>filterNoExtension = False, extensionsFilter = [],
      extensionsFilterMode = ''blacklist'', temporaryUploadAges = [],
      cacheFileIdentifiers = True, filterEmptyFile = True, maxSize = 512, chunkSize = True,
      fileIdentifierLength = None, storeIP = True, stripTags_on = False,
      domain = ''https://safe.example''\<rparr>"

subsection \<open>Extension policy\<close>

text \<open>
  \<^verbatim>\<open>String.prototype.toLowerCase\<close> on the ASCII letters; every other byte is kept.
\<close>

definition toLowerCase_char :: "char \<Rightarrow> char" where
  "toLowerCase_char c =
     (case map_of (zip ''ABCDEFGHIJKLMNOPQRSTUVWXYZ'' ''abcdefghijklmnopqrstuvwxyz'') c of
        Some l \<Rightarrow> l
      | None \<Rightarrow> c)"

definition toLowerCase :: "string \<Rightarrow> string" where
  "toLowerCase s = map toLowerCase_char s"

text \<open>
  \<^verbatim>\<open>self.isExtensionFiltered\<close> (lines 119-133). The argument is an extension as
  \<^verbatim>\<open>utils.extname\<close> hands it over: with its leading dot, or the empty string. Only the
  configured entries go through \<^verbatim>\<open>toLowerCase\<close>; the argument is compared as it is.
\<close>

definition isExtensionFiltered :: "config \<Rightarrow> string \<Rightarrow> bool" where
  "isExtensionFiltered cfg extname =
     (if extname = [] \<and> filterNoExtension cfg then True
      else if extname \<noteq> [] \<and> extensionsFilter_on cfg then
        (let match = list_ex (\<lambda>extension. extname = toLowerCase extension) (extensionsFilter cfg);
             whitelist = (extensionsFilterMode cfg = ''whitelist'')
         in if (\<not> whitelist \<and> match) \<or> (whitelist \<and> \<not> match) then True else False)
      else False)"

subsection \<open>Retention age\<close>

text \<open>
  The requested age: absent, \<^verbatim>\<open>null\<close>, the text of the \<^verbatim>\<open>age\<close> header, or a number of
  a JSON body. \<^verbatim>\<open>parseFloat\<close> is the JavaScript builtin and a parameter here: it answers
  the finite number a text starts with, or \<^term>\<open>None\<close> for \<^verbatim>\<open>NaN\<close> and the infinities,
  which no configured age equals; a finite number it answers as it is.
\<close>

datatype age_arg = Undefined | Null | Str string | Num rat

text \<open>\<^verbatim>\<open>self.parseUploadAge\<close> (lines 177-185).\<close>

definition parseUploadAge :: "(string \<Rightarrow> rat option) \<Rightarrow> config \<Rightarrow> age_arg \<Rightarrow> rat option" where
  "parseUploadAge parseFloat cfg age =
     (case age of
        Undefined \<Rightarrow> (case temporaryUploadAges cfg of [] \<Rightarrow> None | a # _ \<Rightarrow> Some a)
      | Null \<Rightarrow> (case temporaryUploadAges cfg of [] \<Rightarrow> None | a # _ \<Rightarrow> Some a)
      | Str s \<Rightarrow>
          (case parseFloat s of
             None \<Rightarrow> None
           | Some parsed \<Rightarrow>
               if parsed \<in> set (temporaryUploadAges cfg) then Some parsed else None)
      | Num parsed \<Rightarrow>
          if parsed \<in> set (temporaryUploadAges cfg) then Some parsed else None)"

text \<open>JavaScript truthiness of a number or \<^verbatim>\<open>null\<close>: \<^verbatim>\<open>null\<close> and \<^verbatim>\<open>0\<close> are falsy.\<close>

definition truthy_num :: "rat option \<Rightarrow> bool" where
  "truthy_num age = (case age of None \<Rightarrow> False | Some a \<Rightarrow> a \<noteq> 0)"

definition PermanentNotAllowed :: error where
  "PermanentNotAllowed = Msg ''Permanent uploads are not permitted.''"

text \<open>
  The retention step of \<^verbatim>\<open>self.upload\<close> (lines 214-219): the age handed on to the
  upload, or the refusal sent to the client.
\<close>

definition upload_age :: "(string \<Rightarrow> rat option) \<Rightarrow> config \<Rightarrow> age_arg \<Rightarrow> error + rat option" where
  "upload_age parseFloat cfg header =
     (if temporaryUploads cfg then
        (let age = parseUploadAge parseFloat cfg header
         in if \<not> truthy_num age \<and> 0 \<notin> set (temporaryUploadAges cfg)
            then Inl PermanentNotAllowed
            else Inr age)
      else Inr None)"

subsection \<open>State\<close>

text \<open>
  What the controller reads and writes: the process-wide \<^verbatim>\<open>chunksData\<close>, the directories
  of the chunk sessions under \<^verbatim>\<open>paths.chunks\<close> (named by the session's uuid), the files of
  \<^verbatim>\<open>paths.uploads\<close> by name, the identifier cache \<^verbatim>\<open>utils.idSet\<close>, the number of random
  strings drawn so far, and the tables \<^verbatim>\<open>files\<close> and \<^verbatim>\<open>albums\<close> of the database.
\<close>

record session =
  session_root :: string
  session_chunks :: "string list"
  session_size :: nat

record file_row =
  f_name :: string
  f_original :: string
  f_type :: string
  f_size :: nat
  f_hash :: string
  f_ip :: "string option"
  f_timestamp :: int
  f_userid :: "int option"
  f_albumid :: "int option"
  f_expirydate :: "rat option"

record album_row =
  a_id :: int
  a_userid :: int
  a_editedAt :: int

record world =
  chunksData :: "string \<rightharpoonup> session"
  chunkDirs :: "string \<rightharpoonup> (string \<times> bytes) list"
  uploads :: "string \<rightharpoonup> bytes"
  idSet :: "string set"
  draws :: nat
  files_tbl :: "file_row list"
  albums_tbl :: "album_row list"

subsection \<open>Identifier allocation\<close>

definition AllocationExhausted :: error where
  "AllocationExhausted = Msg ''Sorry, we could not allocate a unique random name. Try again?''"

text \<open>
  \<^verbatim>\<open>self.getUniqueRandomName\<close> (lines 149-175). \<^verbatim>\<open>randomstring.generate\<close> is the
  parameter \<open>generate\<close>: the string the \<open>k\<close>-th draw of the process answers for a length.
  The first numeric argument counts the iterations the \<^verbatim>\<open>for\<close> loop has left. Without the
  cache a name is in use when \<^verbatim>\<open>paths.access\<close> finds the file; the \<^verbatim>\<open>catch\<close> tests
  \<^verbatim>\<open>error & error.code !== 'ENOENT'\<close>, a bitwise conjunction that is always 0, so every
  failure of the access counts as a free name.
\<close>

fun getUniqueRandomName_from ::
  "(nat \<Rightarrow> int \<Rightarrow> string) \<Rightarrow> config \<Rightarrow> nat \<Rightarrow> int \<Rightarrow> string \<Rightarrow> world \<Rightarrow> (error + string) \<times> world"
where
  "getUniqueRandomName_from generate cfg 0 len extension w = (Inl AllocationExhausted, w)"
| "getUniqueRandomName_from generate cfg (Suc n) len extension w =
     (let identifier = generate (draws w) len;
          name = identifier @ extension;
          w1 = w\<lparr>draws := Suc (draws w)\<rparr>
      in if cacheFileIdentifiers cfg then
           if identifier \<in> idSet w1
           then getUniqueRandomName_from generate cfg n len extension w1
           else (Inr name, w1\<lparr>idSet := insert identifier (idSet w1)\<rparr>)
         else
           if uploads w1 name \<noteq> None
           then getUniqueRandomName_from generate cfg n len extension w1
           else (Inr name, w1))"

text \<open>\<open>idMaxTries\<close> is \<^verbatim>\<open>utils.idMaxTries\<close>, the retry budget.\<close>

definition getUniqueRandomName ::
  "(nat \<Rightarrow> int \<Rightarrow> string) \<Rightarrow> config \<Rightarrow> nat \<Rightarrow> int \<Rightarrow> string \<Rightarrow> world \<Rightarrow> (error + string) \<times> world"
where
  "getUniqueRandomName generate cfg idMaxTries len extension w =
     getUniqueRandomName_from generate cfg idMaxTries len extension w"

text \<open>A drawn identifier is in use: in the cache, or as a file of the uploads directory.\<close>

definition in_use :: "config \<Rightarrow> world \<Rightarrow> string \<Rightarrow> string \<Rightarrow> bool" where
  "in_use cfg w identifier extension =
     (if cacheFileIdentifiers cfg then identifier \<in> idSet w
      else uploads w (identifier @ extension) \<noteq> None)"

text \<open>The state of a process that has just started, on empty directories and tables.\<close>


definition empty_world :: world where
  "empty_world =
     \<lparr>chunksData = Map.empty, chunkDirs = Map.empty, uploads = Map.empty, idSet = {},
      draws = 0, files_tbl = [], albums_tbl = []\<rparr>"

subsection \<open>Deduplication and persistence\<close>

record user_row =
  u_id :: int
  u_username :: string

text \<open>An element of \<^verbatim>\<open>infoMap\<close>: \<^verbatim>\<open>info.path\<close> is the file \<open>i_filename\<close> of the uploads.\<close>

record info =
  i_filename :: string
  i_originalname :: string
  i_extname :: string
  i_mimetype :: string
  i_size :: nat
  i_albumid :: "int option"
  i_age :: "rat option"

record request =
  req_nojs :: bool     \<comment> \<open>\<^verbatim>\<open>req.path === '/nojs'\<close>\<close>
  req_ip :: string

text \<open>
  An element of the array \<^verbatim>\<open>storeFilesToDb\<close> returns, by the fields
  \<^verbatim>\<open>sendUploadResponse\<close> reads: a new row, or the selected columns of an existing one.
\<close>

record stored =
  s_name :: string
  s_expirydate :: "rat option"
  s_original :: "string option"

record store_acc =
  acc_files :: "file_row list"
  acc_exists :: "stored list"
  acc_albumids :: "int list"

text \<open>
  Modelled from the spec: \<^verbatim>\<open>utils.unlinkFile\<close>, of \<^verbatim>\<open>utilsController.js\<close>, deletes the
  named file of the uploads directory.
\<close>

definition unlinkFile :: "string \<Rightarrow> world \<Rightarrow> world" where
  "unlinkFile filename w = w\<lparr>uploads := (uploads w)(filename := None)\<rparr>"

text \<open>
  The query of lines 615-628: the first row of \<^verbatim>\<open>files\<close> in the owner's scope
  (\<^verbatim>\<open>userid\<close> is \<^verbatim>\<open>NULL\<close> for an anonymous upload) with this hash and size.
\<close>

definition find_existing :: "user_row option \<Rightarrow> string \<Rightarrow> nat \<Rightarrow> file_row list \<Rightarrow> file_row option" where
  "find_existing user hash sz tbl =
     find (\<lambda>r. (case user of None \<Rightarrow> f_userid r = None | Some u \<Rightarrow> f_userid r = Some (u_id u)) \<and>
               f_hash r = hash \<and> f_size r = sz) tbl"

text \<open>
  The object \<^verbatim>\<open>data\<close> of lines 643-663, the row of a new file: \<open>now\<close> is the clock in
  seconds, \<open>hash\<close> the digest of the file. The expiry date is set only for a truthy age.
\<close>

definition new_data :: "config \<Rightarrow> request \<Rightarrow> user_row option \<Rightarrow> int \<Rightarrow> info \<Rightarrow> string \<Rightarrow> file_row" where
  "new_data cfg req user now info hash =
     \<lparr>f_name = i_filename info, f_original = i_originalname info,
      f_type = i_mimetype info, f_size = i_size info, f_hash = hash,
      f_ip = (if storeIP cfg then Some (req_ip req) else None),
      f_timestamp = now,
      f_userid = (case user of None \<Rightarrow> None | Some u \<Rightarrow> Some (u_id u)),
      f_albumid = (case user of None \<Rightarrow> None | Some u \<Rightarrow> i_albumid info),
      f_expirydate =
        (if truthy_num (i_age info)
         then Some (of_int now + the (i_age info) * 3600) else None)\<rparr>"

text \<open>The element pushed to \<^verbatim>\<open>exists\<close> for a duplicate (lines 630-640).\<close>

definition exists_entry :: "request \<Rightarrow> info \<Rightarrow> file_row \<Rightarrow> stored" where
  "exists_entry req info dbFile =
     \<lparr>s_name = f_name dbFile, s_expirydate = f_expirydate dbFile,
      s_original = (if req_nojs req then Some (i_originalname info) else None)\<rparr>"

text \<open>
  The body of the \<^verbatim>\<open>infoMap.map\<close> callback (lines 604-670) for one file. \<open>md5_hex\<close> is the
  digest of \<^verbatim>\<open>crypto\<close>. Reading the file fails when it is missing. The thumbnail request
  is fire-and-forget and leaves no trace here.
\<close>

definition store_one ::
  "(bytes \<Rightarrow> string) \<Rightarrow> config \<Rightarrow> request \<Rightarrow> user_row option \<Rightarrow> int \<Rightarrow> info \<Rightarrow>
     store_acc \<Rightarrow> world \<Rightarrow> (error + store_acc) \<times> world"
where
  "store_one md5_hex cfg req user now info acc w =
     (case uploads w (i_filename info) of
        None \<Rightarrow> (Inl (FsError ''ENOENT''), w)
      | Some content \<Rightarrow>
          (let hash = md5_hex content in
           case find_existing user hash (i_size info) (files_tbl w) of
             Some dbFile \<Rightarrow>
               (Inr (acc\<lparr>acc_exists := acc_exists acc @ [exists_entry req info dbFile]\<rparr>),
                unlinkFile (i_filename info) w)
           | None \<Rightarrow>
               (let data = new_data cfg req user now info hash;
                    albumids =
                      (case user of
                         None \<Rightarrow> acc_albumids acc
                       | Some u \<Rightarrow>
                           (case f_albumid data of
                              None \<Rightarrow> acc_albumids acc
                            | Some a \<Rightarrow>
                                if a \<in> set (acc_albumids acc) then acc_albumids acc
                                else acc_albumids acc @ [a]))
                in (Inr (acc\<lparr>acc_files := acc_files acc @ [data], acc_albumids := albumids\<rparr>), w))))"

text \<open>The row the lookup finds for a file of the batch, read in a given state.\<close>

definition existing_for :: "(bytes \<Rightarrow> string) \<Rightarrow> user_row option \<Rightarrow> world \<Rightarrow> info \<Rightarrow> file_row option" where
  "existing_for md5_hex user w info =
     (case uploads w (i_filename info) of
        None \<Rightarrow> None
      | Some content \<Rightarrow> find_existing user (md5_hex content) (i_size info) (files_tbl w))"

text \<open>
  The callbacks of \<^verbatim>\<open>Promise.all\<close>, taken in the order of \<^verbatim>\<open>infoMap\<close>; the first
  failure rejects the whole. Every lookup reads the table as it was before the batch: the
  rows are inserted after all callbacks have returned.
\<close>

fun store_all ::
  "(bytes \<Rightarrow> string) \<Rightarrow> config \<Rightarrow> request \<Rightarrow> user_row option \<Rightarrow> int \<Rightarrow> info list \<Rightarrow>
     store_acc \<Rightarrow> world \<Rightarrow> (error + store_acc) \<times> world"
where
  "store_all md5_hex cfg req user now [] acc w = (Inr acc, w)"
| "store_all md5_hex cfg req user now (info # infos) acc w =
     (case store_one md5_hex cfg req user now info acc w of
        (Inl e, w1) \<Rightarrow> (Inl e, w1)
      | (Inr acc1, w1) \<Rightarrow> store_all md5_hex cfg req user now infos acc1 w1)"

definition stored_of :: "file_row \<Rightarrow> stored" where
  "stored_of f = \<lparr>s_name = f_name f, s_expirydate = f_expirydate f, s_original = Some (f_original f)\<rparr>"

text \<open>
  \<^verbatim>\<open>self.storeFilesToDb\<close> (lines 599-701). Album ids are collected only for a user, so
  \<^verbatim>\<open>user.id\<close> is read only when there is one. The tables are lists of the state and
  the calls on them answer, so the one error of this function is the failed read of a
  file, before the insert of line 688. A rejection of the update of lines 691-694, which
  in the source leaves the inserted rows in the table, is no branch here: the properties
  below speak of the runs that return, and none speaks of the tables after a failure of
  this function.
\<close>

definition storeFilesToDb ::
  "(bytes \<Rightarrow> string) \<Rightarrow> config \<Rightarrow> request \<Rightarrow> user_row option \<Rightarrow> int \<Rightarrow> info list \<Rightarrow>
     world \<Rightarrow> (error + stored list) \<times> world"
where
  "storeFilesToDb md5_hex cfg req user now infoMap w =
     (case store_all md5_hex cfg req user now infoMap
             \<lparr>acc_files = [], acc_exists = [], acc_albumids = []\<rparr> w of
        (Inl e, w1) \<Rightarrow> (Inl e, w1)
      | (Inr acc, w1) \<Rightarrow>
          if acc_files acc \<noteq> [] then
            (let authorizedIds =
                   (if acc_albumids acc \<noteq> [] then
                      (case user of
                         None \<Rightarrow> []
                       | Some u \<Rightarrow>
                           map a_id (filter (\<lambda>a. a_userid a = u_id u \<and> a_id a \<in> set (acc_albumids acc))
                                       (albums_tbl w1)))
                    else []);
                 files =
                   (if acc_albumids acc \<noteq> [] then
                      map (\<lambda>file. case f_albumid file of
                                    None \<Rightarrow> file
                                  | Some a \<Rightarrow>
                                      if a \<notin> set authorizedIds then file\<lparr>f_albumid := None\<rparr>
                                      else file)
                        (acc_files acc)
                    else acc_files acc);
                 w2 = w1\<lparr>files_tbl := files_tbl w1 @ files\<rparr>;
                 w3 =
                   (if authorizedIds \<noteq> [] then
                      w2\<lparr>albums_tbl :=
                            map (\<lambda>a. if a_id a \<in> set authorizedIds then a\<lparr>a_editedAt := now\<rparr> else a)
                              (albums_tbl w2)\<rparr>
                    else w2)
             in (Inr (map stored_of files @ acc_exists acc), w3))
          else (Inr (acc_exists acc), w1))"

text \<open>The body \<^verbatim>\<open>self.sendUploadResponse\<close> sends (lines 703-724), by file.\<close>

record response_file =
  res_name :: string
  res_url :: string
  res_expirydate :: "rat option"
  res_original :: "string option"

definition sendUploadResponse :: "config \<Rightarrow> request \<Rightarrow> stored list \<Rightarrow> response_file list" where
  "sendUploadResponse cfg req result =
     map (\<lambda>file.
            \<lparr>res_name = s_name file,
             res_url = domain cfg @ ''/'' @ s_name file,
             res_expirydate = (if truthy_num (s_expirydate file) then s_expirydate file else None),
             res_original = (if req_nojs req then s_original file else None)\<rparr>)
       result"

text \<open>A file of a batch and a row of the table, to evaluate the functions at.\<close>

definition sample_info :: info where
  "sample_info =
     \<lparr>i_filename = ''n3wN4me.txt'', i_originalname = ''notes.txt'', i_extname = ''.txt'',
      i_mimetype = ''text/plain'', i_size = 5, i_albumid = None, i_age = None\<rparr>"

definition sample_row :: file_row where
  "sample_row =
     \<lparr>f_name = ''0ldN4me.txt'', f_original = ''old.txt'', f_type = ''text/plain'', f_size = 5,
      f_hash = ''hello'', f_ip = None, f_timestamp = 1600000000, f_userid = None,
      f_albumid = None, f_expirydate = Some 1600086400\<rparr>"

subsection \<open>Chunk sessions\<close>

text \<open>
  The decimal numeral of a natural number, as \<^verbatim>\<open>Number.prototype.toString\<close> writes an
  integer below \<^verbatim>\<open>1e21\<close>, and of an integer with its sign.
\<close>

definition digit_char :: "nat \<Rightarrow> char" where
  "digit_char d = ''0123456789'' ! d"

fun dec :: "nat \<Rightarrow> string" where
  "dec n = (if n < 10 then [digit_char n] else dec (n div 10) @ [digit_char (n mod 10)])"

declare dec.simps [simp del]

definition js_string_of_int :: "int \<Rightarrow> string" where
  "js_string_of_int i = (if i < 0 then ''-'' @ dec (nat (- i)) else dec (nat i))"

text \<open>
  The chunk branch of the \<^verbatim>\<open>filename\<close> callback (lines 110-114). The form field
  \<^verbatim>\<open>totalchunkcount\<close> is given by the integer it denotes, or \<^term>\<open>None\<close> when the request
  has none; \<^verbatim>\<open>chunkindex\<close> is the text of the field, and an absent field is
  concatenated as \<^verbatim>\<open>undefined\<close>. \<^verbatim>\<open>slice(-digits)\<close> keeps the last \<open>digits\<close> characters.
\<close>

definition chunk_filename :: "int option \<Rightarrow> string option \<Rightarrow> string" where
  "chunk_filename totalchunkcount chunkindex =
     (let digits = (case totalchunkcount of
                      None \<Rightarrow> 1
                    | Some n \<Rightarrow> length (js_string_of_int (n - 1)));
          zeros = replicate digits CHR ''0'';
          padded = zeros @ (case chunkindex of None \<Rightarrow> ''undefined'' | Some i \<Rightarrow> i)
      in drop (length padded - digits) padded)"

text \<open>
  \<^verbatim>\<open>initChunks\<close> (lines 40-54). The root of a session is the directory of its uuid; it is
  made when it is missing, and the session is registered once.
\<close>

definition initChunks :: "string \<Rightarrow> world \<Rightarrow> world" where
  "initChunks uuid w =
     (if chunksData w uuid = None then
        (let w1 = (if chunkDirs w uuid = None then w\<lparr>chunkDirs := (chunkDirs w)(uuid \<mapsto> [])\<rparr> else w)
         in w1\<lparr>chunksData := (chunksData w1)
                  (uuid \<mapsto> \<lparr>session_root = uuid, session_chunks = [], session_size = 0\<rparr>)\<rparr>)
      else w)"

text \<open>Writing a file of a directory replaces a file of the same name; unlinking removes it.\<close>

definition dir_write :: "string \<Rightarrow> bytes \<Rightarrow> (string \<times> bytes) list \<Rightarrow> (string \<times> bytes) list" where
  "dir_write name content dir = (name, content) # filter (\<lambda>e. fst e \<noteq> name) dir"

definition dir_unlink :: "string \<Rightarrow> (string \<times> bytes) list \<Rightarrow> (string \<times> bytes) list" where
  "dir_unlink name dir = filter (\<lambda>e. fst e \<noteq> name) dir"

text \<open>
  A request of the chunk branch: chunked uploads are enabled and the body carries a uuid.
  \<open>cr_files\<close> are the bytes of the files of the field \<^verbatim>\<open>files[]\<close>.
\<close>

record chunk_request =
  cr_uuid :: string
  cr_totalchunkcount :: "int option"
  cr_chunkindex :: "string option"
  cr_files :: "bytes list"

text \<open>
  What the disk storage does with the files of the request, one after the other: the
  \<^verbatim>\<open>destination\<close> callback runs \<^verbatim>\<open>initChunks\<close>, the \<^verbatim>\<open>filename\<close> callback names the
  file, and the file is written into the session's directory.
\<close>

fun store_chunk_files :: "string \<Rightarrow> string \<Rightarrow> bytes list \<Rightarrow> world \<Rightarrow> (error + unit) \<times> world" where
  "store_chunk_files uuid name [] w = (Inr (), w)"
| "store_chunk_files uuid name (payload # rest) w =
     (let w1 = initChunks uuid w
      in case chunkDirs w1 uuid of
           None \<Rightarrow> (Inl (FsError ''ENOENT''), w1)
         | Some dir \<Rightarrow>
             store_chunk_files uuid name rest
               (w1\<lparr>chunkDirs := (chunkDirs w1)(uuid \<mapsto> dir_write name payload dir)\<rparr>))"

text \<open>
  The chunk branch of \<^verbatim>\<open>actuallyUploadFiles\<close> (lines 235-261) after the storage has run:
  every file's name is pushed to the session's \<^verbatim>\<open>chunks\<close> and its size is added.
\<close>

definition uploadChunks :: "chunk_request \<Rightarrow> world \<Rightarrow> (error + unit) \<times> world" where
  "uploadChunks r w =
     (let name = chunk_filename (cr_totalchunkcount r) (cr_chunkindex r)
      in case store_chunk_files (cr_uuid r) name (cr_files r) w of
           (Inl e, w1) \<Rightarrow> (Inl e, w1)
         | (Inr u, w1) \<Rightarrow>
             if cr_files r = [] then (Inl (Msg ''No files.''), w1)
             else
               (case chunksData w1 (cr_uuid r) of
                  None \<Rightarrow> (Inl (Msg ''No session.''), w1)
                | Some s \<Rightarrow>
                    (Inr (),
                     w1\<lparr>chunksData := (chunksData w1)
                          (cr_uuid r \<mapsto>
                             s\<lparr>session_chunks := session_chunks s @ map (\<lambda>file. name) (cr_files r),
                               session_size := session_size s + sum_list (map length (cr_files r))\<rparr>)\<rparr>)))"

text \<open>
  \<^verbatim>\<open>self.combineChunks\<close> (lines 504-526). The destination is a file of the uploads, opened
  for appending. The recorded names are sorted in place by \<^verbatim>\<open>Array.prototype.sort\<close>, which
  compares strings by their code units; the files are read in this order and appended. A
  file that cannot be read stops the loop; what was appended before stays.
\<close>

fun append_chunks :: "(string \<times> bytes) list \<Rightarrow> string list \<Rightarrow> bytes \<Rightarrow> error option \<times> bytes" where
  "append_chunks dir [] content = (None, content)"
| "append_chunks dir (chunk # rest) content =
     (case map_of dir chunk of
        None \<Rightarrow> (Some (FsError ''ENOENT''), content)
      | Some b \<Rightarrow> append_chunks dir rest (content @ b))"

definition combineChunks :: "string \<Rightarrow> string \<Rightarrow> world \<Rightarrow> (error + unit) \<times> world" where
  "combineChunks destination uuid w =
     (let old = (case uploads w destination of None \<Rightarrow> [] | Some b \<Rightarrow> b)
      in case chunksData w uuid of
           None \<Rightarrow> (Inl (FsError ''TypeError''), w\<lparr>uploads := (uploads w)(destination \<mapsto> old)\<rparr>)
         | Some s \<Rightarrow>
             (let sorted_chunks = sort (session_chunks s);
                  w1 = w\<lparr>chunksData := (chunksData w)(uuid \<mapsto> s\<lparr>session_chunks := sorted_chunks\<rparr>)\<rparr>;
                  dir = (case chunkDirs w1 uuid of None \<Rightarrow> [] | Some d \<Rightarrow> d);
                  (errorObj, content) = append_chunks dir sorted_chunks old;
                  w2 = w1\<lparr>uploads := (uploads w1)(destination \<mapsto> content)\<rparr>
              in (case errorObj of None \<Rightarrow> Inr () | Some e \<Rightarrow> Inl e, w2)))"

text \<open>The request that carries fragment \<open>i\<close> of a session, labelled with its decimal index.\<close>

definition fragment :: "string \<Rightarrow> int option \<Rightarrow> (nat \<Rightarrow> bytes) \<Rightarrow> nat \<Rightarrow> chunk_request" where
  "fragment uuid totalchunkcount payload i =
     \<lparr>cr_uuid = uuid, cr_totalchunkcount = totalchunkcount, cr_chunkindex = Some (dec i),
      cr_files = [payload i]\<rparr>"

text \<open>The digits of a number at a fixed width, most significant first.\<close>

fun digs :: "nat \<Rightarrow> nat \<Rightarrow> string" where
  "digs 0 n = []"
| "digs (Suc w) n = digs w (n div 10) @ [digit_char (n mod 10)]"

text \<open>The padding width of a fragment name, by the total chunk count of the request.\<close>

definition width_of :: "int option \<Rightarrow> nat" where
  "width_of totalchunkcount =
     (case totalchunkcount of None \<Rightarrow> 1 | Some n \<Rightarrow> length (js_string_of_int (n - 1)))"

text \<open>
  The state of a session that has received the fragments \<open>js\<close>, each once, in this order:
  the names are recorded in arrival order, every fragment's file holds its payload, the
  tracked size is the sum of the payload sizes, and the uploads are as they were in \<open>w\<close>.
\<close>

definition received ::
  "string \<Rightarrow> int option \<Rightarrow> (nat \<Rightarrow> bytes) \<Rightarrow> world \<Rightarrow> nat list \<Rightarrow> world \<Rightarrow> bool"
where
  "received uuid tcc payload w js w' \<longleftrightarrow>
     chunksData w' uuid =
       Some \<lparr>session_root = uuid,
             session_chunks = map (\<lambda>i. chunk_filename tcc (Some (dec i))) js,
             session_size = sum_list (map (\<lambda>i. length (payload i)) js)\<rparr> \<and>
     (\<exists>dir. chunkDirs w' uuid = Some dir \<and>
        (\<forall>i \<in> set js. map_of dir (chunk_filename tcc (Some (dec i))) = Some (payload i))) \<and>
     uploads w' = uploads w"

subsection \<open>Finishing a chunked upload\<close>


























subsection \<open>Filter translation of the listing\<close>

text \<open>
  The query object \<^verbatim>\<open>searchQuery.parse\<close> answers for the filter text, with the options of
  lines 806-814: the keyword arrays, the ranges with their endpoints as text, the free
  text, and the exclusions. An absent key is \<^term>\<open>None\<close>. An endpoint of a range is absent,
  a text, and after the translation \<^verbatim>\<open>null\<close> or a number of seconds.
\<close>

datatype endpoint = EUndefined | EStr string | ENull | ENum int

record range =
  r_from :: endpoint
  r_to :: endpoint

datatype text_exclusion = NoExclusion | OneExclusion string | Exclusions "string list"

record queries =
  q_ip :: "string list option"
  q_user :: "string list option"
  q_orderby :: "string list option"
  q_date :: "range option"
  q_expiry :: "range option"
  q_text :: "string list option"
  q_exclude_ip :: "string list option"
  q_exclude_user :: "string list option"
  q_exclude_text :: text_exclusion

record filterObj =
  fo_uploaders :: "user_row list"
  fo_excludeUploaders :: "user_row list"
  fo_queries :: queries
  fo_noip :: bool
  fo_nouser :: bool

text \<open>
  Lines 818-826: \<^verbatim>\<open>filter((v, i, a) => a.indexOf(v) === i)\<close> keeps the first occurrence of
  every value; a value \<^verbatim>\<open>-\<close> is taken out and raises the flag of the keyword.
\<close>

fun unique_values :: "string list \<Rightarrow> string list" where
  "unique_values [] = []"
| "unique_values (v # vs) = v # filter (\<lambda>x. x \<noteq> v) (unique_values vs)"

definition keyword_values :: "string list option \<Rightarrow> string list option \<times> bool" where
  "keyword_values vs =
     (case vs of
        None \<Rightarrow> (None, False)
      | Some a \<Rightarrow>
          (let u = unique_values a
           in if ''-'' \<in> set u then (Some (filter (\<lambda>x. x \<noteq> ''-'') u), True) else (Some u, False)))"

text \<open>
  The pattern of \<^verbatim>\<open>parseDate\<close> (line 832),
  \<^verbatim>\<open>/^(\d{4})?(\/\d{2})?(\/\d{2})?\s?(\d{2})?(:\d{2})?(:\d{2})?$/\<close>: every group is
  optional and is taken when it matches, which is the match the regular expression finds,
  since skipping a group that matches never lets the rest match. The groups are kept with
  their separator, as \<^verbatim>\<open>match[i]\<close> has them; \<^verbatim>\<open>\s\<close> is one of the ASCII white
  spaces.
\<close>

definition is_digit :: "char \<Rightarrow> bool" where
  "is_digit c = (c \<in> set ''0123456789'')"

definition is_space :: "char \<Rightarrow> bool" where
  "is_space c = (c \<in> {CHR '' '', CHR 0x09, CHR 0x0A, CHR 0x0B, CHR 0x0C, CHR 0x0D})"

definition digits_group :: "nat \<Rightarrow> string \<Rightarrow> string option \<times> string" where
  "digits_group n s =
     (if n \<le> length s \<and> list_all is_digit (take n s) then (Some (take n s), drop n s)
      else (None, s))"

definition sep_group :: "char \<Rightarrow> string \<Rightarrow> string option \<times> string" where
  "sep_group c s =
     (case s of
        [] \<Rightarrow> (None, s)
      | x # rest \<Rightarrow>
          if x = c \<and> 2 \<le> length rest \<and> list_all is_digit (take 2 rest)
          then (Some (x # take 2 rest), drop 2 rest)
          else (None, s))"

record date_match =
  m1 :: "string option"
  m2 :: "string option"
  m3 :: "string option"
  m4 :: "string option"
  m5 :: "string option"
  m6 :: "string option"

definition match_date :: "string \<Rightarrow> date_match option" where
  "match_date date =
     (let (g1, s1) = digits_group 4 date;
          (g2, s2) = sep_group CHR ''/'' s1;
          (g3, s3) = sep_group CHR ''/'' s2;
          s4 = (case s3 of [] \<Rightarrow> s3 | c # rest \<Rightarrow> if is_space c then rest else s3);
          (g4, s5) = digits_group 2 s4;
          (g5, s6) = sep_group CHR '':'' s5;
          (g6, s7) = sep_group CHR '':'' s6
      in if s7 = [] then Some \<lparr>m1 = g1, m2 = g2, m3 = g3, m4 = g4, m5 = g5, m6 = g6\<rparr> else None)"

text \<open>\<^verbatim>\<open>Number\<close> on a string of decimal digits.\<close>

definition Number_of :: "string \<Rightarrow> int" where
  "Number_of s = foldl (\<lambda>a c. 10 * a + (int (of_char c) - 48)) 0 s"

text \<open>
  The \<^verbatim>\<open>Date\<close> object, by its time value in milliseconds. The local time of the server
  is taken at the fixed offset \<^verbatim>\<open>utils.timezoneOffset\<close> (minutes behind UTC), without
  daylight saving. \<open>days_from_civil\<close> is the day number of a date of the proleptic
  Gregorian calendar, \<open>MakeDay\<close> the abstract operation of ECMAScript with a month
  counted from 0 that may overflow the year. \<^verbatim>\<open>setFullYear\<close> keeps the time within the
  day, \<^verbatim>\<open>setHours\<close> keeps the day and the milliseconds.
\<close>

definition msPerDay :: int where
  "msPerDay = 86400000"

definition days_from_civil :: "int \<Rightarrow> int \<Rightarrow> int \<Rightarrow> int" where
  "days_from_civil y m d =
     (let y' = (if m \<le> 2 then y - 1 else y);
          era = y' div 400;
          yoe = y' - era * 400;
          doy = (153 * (m + (if m > 2 then - 3 else 9)) + 2) div 5 + d - 1;
          doe = yoe * 365 + yoe div 4 - yoe div 100 + doy
      in era * 146097 + doe - 719468)"

definition MakeDay :: "int \<Rightarrow> int \<Rightarrow> int \<Rightarrow> int" where
  "MakeDay year month date = days_from_civil (year + month div 12) (month mod 12 + 1) 1 + date - 1"

definition setFullYear :: "int \<Rightarrow> int \<Rightarrow> int \<Rightarrow> int \<Rightarrow> int" where
  "setFullYear local year month date = MakeDay year month date * msPerDay + local mod msPerDay"

definition setHours :: "int \<Rightarrow> int \<Rightarrow> int \<Rightarrow> int \<Rightarrow> int" where
  "setHours local hours minutes seconds =
     (local div msPerDay) * msPerDay +
     (hours * 3600000 + minutes * 60000 + seconds * 1000 + local mod 1000)"

definition setMilliseconds0 :: "int \<Rightarrow> int" where
  "setMilliseconds0 local = local - local mod 1000"

text \<open>
  \<^verbatim>\<open>parseDate\<close> (lines 829-857). \<open>tz\<close> is \<^verbatim>\<open>utils.timezoneOffset\<close>, \<open>now\<close> is
  \<^verbatim>\<open>Date.now()\<close> in milliseconds, \<open>minoffset\<close> the integer of the \<^verbatim>\<open>minoffset\<close>
  header. The result is the time value of the date returned, or \<^term>\<open>None\<close> for
  \<^verbatim>\<open>null\<close>.
\<close>

definition parseDate :: "int \<Rightarrow> int \<Rightarrow> string \<Rightarrow> int \<Rightarrow> bool \<Rightarrow> int option" where
  "parseDate tz now date minoffset resetMs =
     (case match_date date of
        None \<Rightarrow> None
      | Some m \<Rightarrow>
          (let offset = 60000 * (tz - minoffset);
               t0 = now + offset;
               l0 = t0 - tz * 60000;
               l1 = (case m1 m of
                       None \<Rightarrow> l0
                     | Some y \<Rightarrow>
                         setFullYear l0 (Number_of y)
                           (case m2 m of None \<Rightarrow> 0 | Some mo \<Rightarrow> Number_of (tl mo) - 1)
                           (case m3 m of None \<Rightarrow> 1 | Some d \<Rightarrow> Number_of (tl d)));
               l2 = (case m4 m of
                       None \<Rightarrow> l1
                     | Some h \<Rightarrow>
                         setHours l1 (Number_of h)
                           (case m5 m of None \<Rightarrow> 0 | Some mi \<Rightarrow> Number_of (tl mi))
                           (case m6 m of None \<Rightarrow> 0 | Some s \<Rightarrow> Number_of (tl s)));
               l3 = (if resetMs then setMilliseconds0 l2 else l2);
               t3 = l3 + tz * 60000
           in Some (t3 - offset)))"

text \<open>
  Lines 860-870: a truthy endpoint (a non-empty text) is replaced by its seconds,
  \<^verbatim>\<open>Math.floor\<close> for \<^verbatim>\<open>from\<close> and \<^verbatim>\<open>Math.ceil\<close> for \<^verbatim>\<open>to\<close>, or by \<^verbatim>\<open>null\<close>.
\<close>

definition parse_from :: "int \<Rightarrow> int \<Rightarrow> int \<Rightarrow> endpoint \<Rightarrow> endpoint" where
  "parse_from tz now minoffset e =
     (case e of
        EStr s \<Rightarrow>
          if s = [] then e
          else (case parseDate tz now s minoffset True of
                  None \<Rightarrow> ENull
                | Some parsed \<Rightarrow> ENum (parsed div 1000))
      | _ \<Rightarrow> e)"

definition parse_to :: "int \<Rightarrow> int \<Rightarrow> int \<Rightarrow> endpoint \<Rightarrow> endpoint" where
  "parse_to tz now minoffset e =
     (case e of
        EStr s \<Rightarrow>
          if s = [] then e
          else (case parseDate tz now s minoffset True of
                  None \<Rightarrow> ENull
                | Some parsed \<Rightarrow> ENum (- ((- parsed) div 1000)))
      | _ \<Rightarrow> e)"

definition parse_range :: "int \<Rightarrow> int \<Rightarrow> int \<Rightarrow> range option \<Rightarrow> range option" where
  "parse_range tz now minoffset r =
     (case r of
        None \<Rightarrow> None
      | Some q \<Rightarrow>
          Some \<lparr>r_from = parse_from tz now minoffset (r_from q),
                r_to = parse_to tz now minoffset (r_to q)\<rparr>)"

text \<open>
  Lines 873-902: the user names of the keyword and of its exclusion are looked up in the
  table \<^verbatim>\<open>users\<close>; the answer has the rows whose name is among them. \<^verbatim>\<open>if (notFound)\<close>
  tests an array, which is truthy also when it is empty.
\<close>

definition join_comma :: "string list \<Rightarrow> string" where
  "join_comma xs = (case xs of [] \<Rightarrow> [] | x # rest \<Rightarrow> foldl (\<lambda>a b. a @ '', '' @ b) x rest)"

definition UsersNotFound :: "string list \<Rightarrow> error" where
  "UsersNotFound notFound =
     Msg (''User'' @ (if length notFound = 1 then [] else ''s'') @ '' not found: '' @
          join_comma notFound @ ''.'')"

definition resolve_users ::
  "user_row list \<Rightarrow> string list option \<Rightarrow> string list option \<Rightarrow>
     error + user_row list \<times> user_row list"
where
  "resolve_users users_tbl user exclude_user =
     (if user \<noteq> None \<or> exclude_user \<noteq> None then
        (let usernames = (case user of None \<Rightarrow> [] | Some a \<Rightarrow> a) @
                         (case exclude_user of None \<Rightarrow> [] | Some a \<Rightarrow> a);
             uploaders = filter (\<lambda>u. u_username u \<in> set usernames) users_tbl
         in if length uploaders \<noteq> length usernames
            then Inl (UsersNotFound
                        (filter (\<lambda>username. \<not> list_ex (\<lambda>uploader. u_username uploader = username) uploaders)
                           usernames))
            else Inr (filter (\<lambda>uploader. user \<noteq> None \<and> u_username uploader \<in> set (the user)) uploaders,
                      filter (\<lambda>uploader. \<not> (user \<noteq> None \<and> u_username uploader \<in> set (the user))) uploaders))
      else Inr ([], []))"

text \<open>
  Lines 904-922: the keys of \<^verbatim>\<open>orderby\<close>. \<^verbatim>\<open>split(':')\<close> cuts the key at every colon.
  The tables \<^verbatim>\<open>maps\<close>, \<^verbatim>\<open>casts\<close> and \<^verbatim>\<open>nullsLast\<close> are those of lines 778-795, read at
  their own keys.
\<close>

fun split_colon :: "string \<Rightarrow> string list" where
  "split_colon [] = [[]]"
| "split_colon (c # cs) =
     (if c = CHR '':'' then [] # split_colon cs
      else (case split_colon cs of [] \<Rightarrow> [[c]] | x # xs \<Rightarrow> (c # x) # xs))"

definition orderby_key :: "string \<Rightarrow> string" where
  "orderby_key obQuery =
     (let tmp = split_colon (toLowerCase obQuery);
          mapped = (case map_of [(''date'', ''timestamp''), (''expiry'', ''expirydate'')] (hd tmp) of
                      None \<Rightarrow> hd tmp
                    | Some c \<Rightarrow> c);
          column = (case map_of [(''size'', ''integer'')] mapped of
                      None \<Rightarrow> mapped
                    | Some t \<Rightarrow> ''cast (`'' @ mapped @ ''` as '' @ t @ '')'');
          direction = (case tl tmp of
                         [] \<Rightarrow> ''asc''
                       | d # ds \<Rightarrow> if d \<noteq> [] \<and> hd d = CHR ''d'' then ''desc'' else ''asc'');
          suffix = (if column \<in> set [''userid'', ''expirydate'', ''ip''] then '' nulls last'' else [])
      in column @ '' '' @ direction @ suffix)"

text \<open>
  The translation of lines 797-927, from the query object to the filter object and the
  parsed ordering; a user name that is not resolved ends the request with its message.
\<close>

definition translate ::
  "int \<Rightarrow> int \<Rightarrow> int \<Rightarrow> user_row list \<Rightarrow> queries \<Rightarrow> error + filterObj \<times> string list"
where
  "translate tz now minoffset users_tbl q =
     (let (ip, noip) = keyword_values (q_ip q);
          (user, nouser) = keyword_values (q_user q);
          date = parse_range tz now minoffset (q_date q);
          expiry = parse_range tz now minoffset (q_expiry q)
      in case resolve_users users_tbl user (q_exclude_user q) of
           Inl e \<Rightarrow> Inl e
         | Inr (uploaders, excludeUploaders) \<Rightarrow>
             Inr (\<lparr>fo_uploaders = uploaders, fo_excludeUploaders = excludeUploaders,
                   fo_queries =
                     q\<lparr>q_ip := ip, q_user := None, q_orderby := None, q_date := date,
                       q_expiry := expiry, q_exclude_user := None,
                       q_exclude_text :=
                         (case q_exclude_text q of
                            OneExclusion s \<Rightarrow> Exclusions [s]
                          | other \<Rightarrow> other)\<rparr>,
                   fo_noip = noip, fo_nouser = nouser\<rparr>,
                  (case q_orderby q of None \<Rightarrow> [] | Some keys \<Rightarrow> map orderby_key keys)))"

text \<open>
  The third group of the \<^verbatim>\<open>where\<close> clause of \<^verbatim>\<open>filter\<close> (lines 952-964), by the
  conditions it adds. Reading \<^verbatim>\<open>queries.date.from\<close> of an absent \<^verbatim>\<open>date\<close> throws.
\<close>

datatype condition =
  WhereBetween string endpoint endpoint
| WhereGreaterEq string endpoint

definition is_number :: "endpoint \<Rightarrow> bool" where
  "is_number e = (case e of ENum n \<Rightarrow> True | _ \<Rightarrow> False)"

definition filter_ranges :: "queries \<Rightarrow> error + condition list" where
  "filter_ranges q =
     (let by_date =
            (case q_date q of
               None \<Rightarrow> []
             | Some d \<Rightarrow>
                 if is_number (r_to d) then [WhereBetween ''timestamp'' (r_from d) (r_to d)]
                 else [WhereGreaterEq ''timestamp'' (r_from d)])
      in case q_expiry q of
           None \<Rightarrow> Inr by_date
         | Some x \<Rightarrow>
             if is_number (r_to x)
             then Inr (by_date @ [WhereBetween ''expirydate'' (r_from x) (r_to x)])
             else (case q_date q of
                     None \<Rightarrow> Inl (FsError ''TypeError'')
                   | Some d \<Rightarrow> Inr (by_date @ [WhereGreaterEq ''expirydate'' (r_from d)])))"

text \<open>
  The query object of the filter text
  \<^verbatim>\<open>ip:10.0.0.1 -ip:- date:2020/01/01-2020/02/01 orderby:date:d\<close>: the negated keyword goes
  to the exclusions, the range is cut at its dash.
\<close>

definition sample_queries :: queries where
  "sample_queries =
     \<lparr>q_ip = Some [''10.0.0.1''], q_user = None, q_orderby = Some [''date:d''],
      q_date = Some \<lparr>r_from = EStr ''2020/01/01'', r_to = EStr ''2020/02/01''\<rparr>,
      q_expiry = None, q_text = None, q_exclude_ip = Some [''-''], q_exclude_user = None,
      q_exclude_text = NoExclusion\<rparr>"

section \<open>Properties\<close>

subsection \<open>Extension policy\<close>

lemma toLowerCase_idem: "toLowerCase (toLowerCase s) = toLowerCase s"
proof -
  have "toLowerCase_char (toLowerCase_char c) = toLowerCase_char c" for c
    by (simp add: toLowerCase_char_def split: option.splits if_splits)
  then show ?thesis
    by (simp add: toLowerCase_def)
qed

text \<open>
  C6, as amended. An empty extension is filtered exactly when extension-less files are
  disallowed. A non-empty extension is filtered only when the configured list is
  non-empty: in whitelist mode iff it equals no lower-cased entry, in any other mode
  (blacklist) iff it equals some lower-cased entry. Only the entries are lower-cased, so
  for an extension that is already in lower case the comparison ignores the case of the
  entries. The extension and the entries carry the leading dot.
\<close>

theorem isExtensionFiltered_policy:
  "(isExtensionFiltered cfg extname \<longleftrightarrow>
      (if extname = [] then filterNoExtension cfg
       else extensionsFilter cfg \<noteq> [] \<and>
            ((extensionsFilterMode cfg = ''whitelist'') \<longleftrightarrow>
               extname \<notin> toLowerCase ` set (extensionsFilter cfg)))) \<and>
   (toLowerCase extname = extname \<longrightarrow>
      (extname \<in> toLowerCase ` set (extensionsFilter cfg) \<longleftrightarrow>
         (\<exists>e \<in> set (extensionsFilter cfg). toLowerCase e = toLowerCase extname)))"
proof
  have m: "list_ex (\<lambda>extension. extname = toLowerCase extension) (extensionsFilter cfg) \<longleftrightarrow>
        extname \<in> toLowerCase ` set (extensionsFilter cfg)"
    by (auto simp: list_ex_iff)
  show "isExtensionFiltered cfg extname \<longleftrightarrow>
      (if extname = [] then filterNoExtension cfg
       else extensionsFilter cfg \<noteq> [] \<and>
            ((extensionsFilterMode cfg = ''whitelist'') \<longleftrightarrow>
               extname \<notin> toLowerCase ` set (extensionsFilter cfg)))"
    unfolding isExtensionFiltered_def extensionsFilter_on_def Let_def m by auto
  show "toLowerCase extname = extname \<longrightarrow>
      (extname \<in> toLowerCase ` set (extensionsFilter cfg) \<longleftrightarrow>
         (\<exists>e \<in> set (extensionsFilter cfg). toLowerCase e = toLowerCase extname))"
    by auto
qed

text \<open>
  The policy at the examples of the specification: a blacklist of \<^verbatim>\<open>.exe\<close> filters
  \<^verbatim>\<open>.exe\<close> whatever the case of the configured entry; a whitelist of \<^verbatim>\<open>.png\<close> filters
  \<^verbatim>\<open>.jpg\<close> and lets \<^verbatim>\<open>.png\<close> pass.
\<close>

theorem isExtensionFiltered_policy_witness:
  "isExtensionFiltered
     (sample_config\<lparr>extensionsFilter := [''.EXE'']\<rparr>)
     ''.exe'' \<and>
   isExtensionFiltered
     (sample_config\<lparr>extensionsFilter := [''.png''], extensionsFilterMode := ''whitelist''\<rparr>)
     ''.jpg'' \<and>
   \<not> isExtensionFiltered
     (sample_config\<lparr>extensionsFilter := [''.png''], extensionsFilterMode := ''whitelist''\<rparr>)
     ''.png'' \<and>
   isExtensionFiltered
     (sample_config\<lparr>filterNoExtension := True, extensionsFilter := [''.png''], extensionsFilterMode := ''whitelist''\<rparr>)
     ''''"
  using
    isExtensionFiltered_policy [of
      "(sample_config\<lparr>extensionsFilter := [''.EXE'']\<rparr>)"
      "''.exe''"]
    isExtensionFiltered_policy [of
      "(sample_config\<lparr>extensionsFilter := [''.png''], extensionsFilterMode := ''whitelist''\<rparr>)"
      "''.jpg''"]
    isExtensionFiltered_policy [of
      "(sample_config\<lparr>extensionsFilter := [''.png''], extensionsFilterMode := ''whitelist''\<rparr>)"
      "''.png''"]
    isExtensionFiltered_policy [of
      "(sample_config\<lparr>filterNoExtension := True, extensionsFilter := [''.png''], extensionsFilterMode := ''whitelist''\<rparr>)"
      "''''"]
  by (simp add: sample_config_def toLowerCase_def toLowerCase_char_def)

text \<open>
  C6 as stated fails twice. In whitelist mode with an empty list the claim filters every
  extension (none is in the list), the code filters none. And the comparison is not
  case-insensitive in the extension: with the blacklist \<^verbatim>\<open>.exe\<close>, the extension
  \<^verbatim>\<open>.EXE\<close> equals the entry up to case and is not filtered.
\<close>

theorem isExtensionFiltered_counterexample:
  "\<not> (isExtensionFiltered
        (sample_config\<lparr>extensionsFilterMode := ''whitelist''\<rparr>)
        ''.jpg'' \<longleftrightarrow>
      \<not> (\<exists>e \<in> set []. toLowerCase e = toLowerCase ''.jpg'')) \<and>
   \<not> (isExtensionFiltered
        (sample_config\<lparr>extensionsFilter := [''.exe'']\<rparr>)
        ''.EXE'' \<longleftrightarrow>
      (\<exists>e \<in> set [''.exe'']. toLowerCase e = toLowerCase ''.EXE''))"
  by (simp add: sample_config_def isExtensionFiltered_def extensionsFilter_on_def
      toLowerCase_def toLowerCase_char_def)

subsection \<open>Retention age\<close>

text \<open>
  C5. With temporary uploads enabled: a requested age that parses to a member of the
  allow-set resolves to exactly that number; a requested age that parses to a number
  outside the allow-set, or to no number, resolves to no age, and the upload is then
  refused with the permanent-uploads message if and only if 0 is not in the allow-set
  (otherwise it goes on with no age).
\<close>

theorem parseUploadAge_allow_set:
  assumes "temporaryUploads cfg"
  shows "(parseFloat s = Some v \<and> v \<in> set (temporaryUploadAges cfg) \<longrightarrow>
            parseUploadAge parseFloat cfg (Str s) = Some v) \<and>
         ((\<forall>v. parseFloat s = Some v \<longrightarrow> v \<notin> set (temporaryUploadAges cfg)) \<longrightarrow>
            parseUploadAge parseFloat cfg (Str s) = None \<and>
            (upload_age parseFloat cfg (Str s) = Inl PermanentNotAllowed \<longleftrightarrow>
               0 \<notin> set (temporaryUploadAges cfg)) \<and>
            (0 \<in> set (temporaryUploadAges cfg) \<longrightarrow>
               upload_age parseFloat cfg (Str s) = Inr None))"
proof (intro conjI impI)
  assume "parseFloat s = Some v \<and> v \<in> set (temporaryUploadAges cfg)"
  then show "parseUploadAge parseFloat cfg (Str s) = Some v"
    by (simp add: parseUploadAge_def)
next
  assume out: "\<forall>v. parseFloat s = Some v \<longrightarrow> v \<notin> set (temporaryUploadAges cfg)"
  then show none: "parseUploadAge parseFloat cfg (Str s) = None"
    by (auto simp: parseUploadAge_def split: option.splits)
  from none assms
  show "upload_age parseFloat cfg (Str s) = Inl PermanentNotAllowed \<longleftrightarrow>
      0 \<notin> set (temporaryUploadAges cfg)"
    by (simp add: upload_age_def truthy_num_def)
  assume "0 \<in> set (temporaryUploadAges cfg)"
  with none assms show "upload_age parseFloat cfg (Str s) = Inr None"
    by (simp add: upload_age_def truthy_num_def)
qed

text \<open>
  The allow-set \<^verbatim>\<open>[0, 1, 24]\<close>: the requested age 24 resolves to 24, the requested age 2
  to no age, and the upload goes on as a permanent one. Without 0 in the allow-set the
  same request is refused.
\<close>

theorem parseUploadAge_allow_set_witness:
  "temporaryUploads (sample_config\<lparr>temporaryUploadAges := [0, 1, 24]\<rparr>) \<and>
   parseUploadAge (\<lambda>s. if s = ''24'' then Some 24 else if s = ''2'' then Some 2 else None)
     (sample_config\<lparr>temporaryUploadAges := [0, 1, 24]\<rparr>) (Str ''24'') = Some 24 \<and>
   parseUploadAge (\<lambda>s. if s = ''24'' then Some 24 else if s = ''2'' then Some 2 else None)
     (sample_config\<lparr>temporaryUploadAges := [0, 1, 24]\<rparr>) (Str ''2'') = None \<and>
   upload_age (\<lambda>s. if s = ''24'' then Some 24 else if s = ''2'' then Some 2 else None)
     (sample_config\<lparr>temporaryUploadAges := [0, 1, 24]\<rparr>) (Str ''2'') = Inr None \<and>
   upload_age (\<lambda>s. if s = ''24'' then Some 24 else if s = ''2'' then Some 2 else None)
     (sample_config\<lparr>temporaryUploadAges := [1, 24]\<rparr>) (Str ''2'') = Inl PermanentNotAllowed"
proof -
  let ?pf = "\<lambda>s. if s = ''24'' then Some (24::rat) else if s = ''2'' then Some 2 else None"
  have on: "temporaryUploads (sample_config\<lparr>temporaryUploadAges := [0, 1, 24]\<rparr>)"
    and on': "temporaryUploads (sample_config\<lparr>temporaryUploadAges := [1, 24]\<rparr>)"
    by (simp_all add: temporaryUploads_def)
  from parseUploadAge_allow_set [OF on, of ?pf "''24''" 24]
    parseUploadAge_allow_set [OF on, of ?pf "''2''" 2]
    parseUploadAge_allow_set [OF on', of ?pf "''2''" 2] on
  show ?thesis
    by simp
qed

subsection \<open>Identifier allocation\<close>


lemma getUniqueRandomName_from_draws:
  "getUniqueRandomName_from generate cfg n len ext w = (r, w') \<Longrightarrow>
     draws w \<le> draws w' \<and> draws w' \<le> draws w + n \<and>
     uploads w' = uploads w \<and> idSet w \<subseteq> idSet w'"
proof (induction n arbitrary: w)
  case 0
  then show ?case by simp
next
  case (Suc n)
  let ?w1 = "w\<lparr>draws := Suc (draws w)\<rparr>"
  show ?case
  proof (cases "getUniqueRandomName_from generate cfg n len ext ?w1 = (r, w')")
    case True
    from Suc.IH [OF True] show ?thesis by simp
  next
    case False
    with Suc.prems show ?thesis
      by (auto simp: Let_def split: if_splits)
  qed
qed

lemma getUniqueRandomName_from_Inr:
  "getUniqueRandomName_from generate cfg n len ext w = (Inr name, w') \<Longrightarrow>
     draws w < draws w' \<and> name = generate (draws w' - 1) len @ ext \<and>
     \<not> in_use cfg w (generate (draws w' - 1) len) ext \<and>
     (\<forall>k. draws w \<le> k \<and> k < draws w' - 1 \<longrightarrow> in_use cfg w (generate k len) ext) \<and>
     (cacheFileIdentifiers cfg \<longrightarrow> idSet w' = insert (generate (draws w' - 1) len) (idSet w)) \<and>
     (\<not> cacheFileIdentifiers cfg \<longrightarrow> idSet w' = idSet w)"
proof (induction n arbitrary: w)
  case 0
  then show ?case by simp
next
  case (Suc n)
  let ?w1 = "w\<lparr>draws := Suc (draws w)\<rparr>"
  show ?case
  proof (cases "in_use cfg w (generate (draws w) len) ext")
    case True
    with Suc.prems have rec: "getUniqueRandomName_from generate cfg n len ext ?w1 = (Inr name, w')"
      by (auto simp: Let_def in_use_def split: if_splits)
    have same: "in_use cfg ?w1 i ext = in_use cfg w i ext" for i
      by (simp add: in_use_def)
    from Suc.IH [OF rec] have IH: "Suc (draws w) < draws w'" "name = generate (draws w' - 1) len @ ext"
      "\<not> in_use cfg w (generate (draws w' - 1) len) ext"
      "\<forall>k. Suc (draws w) \<le> k \<and> k < draws w' - 1 \<longrightarrow> in_use cfg w (generate k len) ext"
      "cacheFileIdentifiers cfg \<longrightarrow> idSet w' = insert (generate (draws w' - 1) len) (idSet w)"
      "\<not> cacheFileIdentifiers cfg \<longrightarrow> idSet w' = idSet w"
      by (simp_all add: same)
    have "in_use cfg w (generate k len) ext" if "draws w \<le> k" "k < draws w' - 1" for k
    proof (cases "k = draws w")
      case True
      with \<open>in_use cfg w (generate (draws w) len) ext\<close> show ?thesis by simp
    next
      case False
      with that have "Suc (draws w) \<le> k" by simp
      with IH(4) that show ?thesis by simp
    qed
    with IH show ?thesis by simp
  next
    case False
    with Suc.prems show ?thesis
      by (auto simp: Let_def in_use_def split: if_splits)
  qed
qed

lemma getUniqueRandomName_from_Inl:
  "getUniqueRandomName_from generate cfg n len ext w = (Inl e, w') \<Longrightarrow>
     e = AllocationExhausted \<and> draws w' = draws w + n \<and> idSet w' = idSet w \<and>
     (\<forall>k < n. in_use cfg w (generate (draws w + k) len) ext)"
proof (induction n arbitrary: w)
  case 0
  then show ?case by simp
next
  case (Suc n)
  let ?w1 = "w\<lparr>draws := Suc (draws w)\<rparr>"
  from Suc.prems have used: "in_use cfg w (generate (draws w) len) ext"
    and rec: "getUniqueRandomName_from generate cfg n len ext ?w1 = (Inl e, w')"
    by (auto simp: Let_def in_use_def split: if_splits)
  have same: "in_use cfg ?w1 i ext = in_use cfg w i ext" for i
    by (simp add: in_use_def)
  from Suc.IH [OF rec] used show ?case
    by (auto simp: same less_Suc_eq_0_disj)
qed

lemma getUniqueRandomName_from_all_used:
  "\<forall>k < n. in_use cfg w (generate (draws w + k) len) ext \<Longrightarrow>
     fst (getUniqueRandomName_from generate cfg n len ext w) = Inl AllocationExhausted"
proof (induction n arbitrary: w)
  case 0
  then show ?case by simp
next
  case (Suc n)
  let ?w1 = "w\<lparr>draws := Suc (draws w)\<rparr>"
  have same: "in_use cfg ?w1 i ext = in_use cfg w i ext" for i
    by (simp add: in_use_def)
  from Suc.prems [rule_format, of 0] have used: "in_use cfg w (generate (draws w) len) ext"
    by simp
  have "\<forall>k < n. in_use cfg ?w1 (generate (draws ?w1 + k) len) ext"
  proof (intro allI impI)
    fix k assume "k < n"
    with Suc.prems [rule_format, of "Suc k"] show "in_use cfg ?w1 (generate (draws ?w1 + k) len) ext"
      by (simp add: same)
  qed
  from Suc.IH [OF this] used show ?case
    by (simp add: Let_def in_use_def split: if_splits)
qed


text \<open>
  C4. \<^verbatim>\<open>getUniqueRandomName\<close> draws at most \<open>idMaxTries\<close> random strings. A name it
  returns is one of these draws followed by the extension; the drawn identifier was not in
  use, and in cache mode it was not in the identifier set before the call and is in it
  when the name is returned. A draw of \<open>len\<close> characters gives a name of \<open>len\<close>
  characters plus the extension. If every attempt finds its identifier in use, the call
  fails with the allocation error, and it fails in no other way.
\<close>

theorem getUniqueRandomName_allocation:
  assumes "getUniqueRandomName generate cfg idMaxTries len extension w = (r, w')"
  shows "draws w \<le> draws w' \<and> draws w' - draws w \<le> idMaxTries \<and>
     (\<forall>name. r = Inr name \<longrightarrow>
        (\<exists>k. draws w \<le> k \<and> k < draws w' \<and> name = generate k len @ extension \<and>
             \<not> in_use cfg w (generate k len) extension \<and>
             (cacheFileIdentifiers cfg \<longrightarrow>
                generate k len \<notin> idSet w \<and> generate k len \<in> idSet w')) \<and>
        ((\<forall>k. length (generate k len) = nat len) \<longrightarrow>
           length name = nat len + length extension)) \<and>
     ((\<forall>k < idMaxTries. in_use cfg w (generate (draws w + k) len) extension) \<longrightarrow>
        r = Inl AllocationExhausted) \<and>
     (\<forall>e. r = Inl e \<longrightarrow>
        e = AllocationExhausted \<and> draws w' = draws w + idMaxTries \<and> idSet w' = idSet w \<and>
        (\<forall>k < idMaxTries. in_use cfg w (generate (draws w + k) len) extension))"
proof -
  from assms have run: "getUniqueRandomName_from generate cfg idMaxTries len extension w = (r, w')"
    by (simp add: getUniqueRandomName_def)
  from getUniqueRandomName_from_draws [OF run]
  have bound: "draws w \<le> draws w' \<and> draws w' - draws w \<le> idMaxTries"
    by auto
  have ok: "(\<exists>k. draws w \<le> k \<and> k < draws w' \<and> name = generate k len @ extension \<and>
             \<not> in_use cfg w (generate k len) extension \<and>
             (cacheFileIdentifiers cfg \<longrightarrow>
                generate k len \<notin> idSet w \<and> generate k len \<in> idSet w')) \<and>
        ((\<forall>k. length (generate k len) = nat len) \<longrightarrow>
           length name = nat len + length extension)" if "r = Inr name" for name
  proof -
    from run that have "getUniqueRandomName_from generate cfg idMaxTries len extension w = (Inr name, w')"
      by simp
    from getUniqueRandomName_from_Inr [OF this]
    have *: "draws w < draws w'" "name = generate (draws w' - 1) len @ extension"
      "\<not> in_use cfg w (generate (draws w' - 1) len) extension"
      "cacheFileIdentifiers cfg \<longrightarrow> idSet w' = insert (generate (draws w' - 1) len) (idSet w)"
      by simp_all
    have "draws w \<le> draws w' - 1 \<and> draws w' - 1 < draws w' \<and>
          name = generate (draws w' - 1) len @ extension \<and>
          \<not> in_use cfg w (generate (draws w' - 1) len) extension \<and>
          (cacheFileIdentifiers cfg \<longrightarrow>
             generate (draws w' - 1) len \<notin> idSet w \<and> generate (draws w' - 1) len \<in> idSet w')"
      using * by (auto simp: in_use_def)
    then show ?thesis
      using *(2) by (intro conjI exI [of _ "draws w' - 1"]) simp_all
  qed
  have all: "r = Inl AllocationExhausted"
    if "\<forall>k < idMaxTries. in_use cfg w (generate (draws w + k) len) extension"
    using getUniqueRandomName_from_all_used
      [where generate = generate and n = idMaxTries and w = w and cfg = cfg and len = len
        and ext = extension] that run
    by simp
  have bad: "e = AllocationExhausted \<and> draws w' = draws w + idMaxTries \<and> idSet w' = idSet w \<and>
        (\<forall>k < idMaxTries. in_use cfg w (generate (draws w + k) len) extension)" if "r = Inl e" for e
    using getUniqueRandomName_from_Inl [of generate cfg idMaxTries len extension w e w'] run that
    by simp
  from bound ok all bad show ?thesis
    by blast
qed


text \<open>
  Two tries in cache mode: the first draw is taken, the second is returned and reserved.
  With both identifiers taken the budget runs out.
\<close>

theorem getUniqueRandomName_allocation_witness:
  "getUniqueRandomName (\<lambda>k len. if k = 0 then ''aaaa'' else ''bbbb'') sample_config 2 4 ''.png''
     (empty_world\<lparr>idSet := {''aaaa''}\<rparr>) =
     (Inr ''bbbb.png'', empty_world\<lparr>idSet := {''bbbb'', ''aaaa''}, draws := 2\<rparr>) \<and>
   draws (empty_world\<lparr>idSet := {''bbbb'', ''aaaa''}, draws := 2\<rparr>) - draws (empty_world\<lparr>idSet := {''aaaa''}\<rparr>) \<le> 2 \<and>
   ''bbbb'' \<notin> idSet (empty_world\<lparr>idSet := {''aaaa''}\<rparr>) \<and>
   ''bbbb'' \<in> idSet (empty_world\<lparr>idSet := {''bbbb'', ''aaaa''}, draws := 2\<rparr>) \<and>
   length ''bbbb.png'' = nat 4 + length ''.png'' \<and>
   fst (getUniqueRandomName (\<lambda>k len. if k = 0 then ''aaaa'' else ''bbbb'') sample_config 2 4 ''.png''
     (empty_world\<lparr>idSet := {''aaaa'', ''bbbb''}\<rparr>)) = Inl AllocationExhausted"
proof -
  let ?g = "\<lambda>(k::nat) (len::int). if k = 0 then ''aaaa'' else ''bbbb''"
  have run: "getUniqueRandomName ?g sample_config 2 4 ''.png'' (empty_world\<lparr>idSet := {''aaaa''}\<rparr>) =
     (Inr ''bbbb.png'', empty_world\<lparr>idSet := {''bbbb'', ''aaaa''}, draws := 2\<rparr>)"
    by (simp add: getUniqueRandomName_def eval_nat_numeral sample_config_def empty_world_def Let_def)
  obtain r w' where out: "getUniqueRandomName ?g sample_config 2 4 ''.png''
     (empty_world\<lparr>idSet := {''aaaa'', ''bbbb''}\<rparr>) = (r, w')"
    by (cases "getUniqueRandomName ?g sample_config 2 4 ''.png''
     (empty_world\<lparr>idSet := {''aaaa'', ''bbbb''}\<rparr>)")
  have used: "\<forall>k < 2. in_use sample_config (empty_world\<lparr>idSet := {''aaaa'', ''bbbb''}\<rparr>)
      (?g (draws (empty_world\<lparr>idSet := {''aaaa'', ''bbbb''}\<rparr>) + k) 4) ''.png''"
    by (simp add: in_use_def sample_config_def)
  from getUniqueRandomName_allocation [OF run] getUniqueRandomName_allocation [OF out] used run out
  show ?thesis
    by (simp add: empty_world_def)
qed

subsection \<open>Deduplication and persistence\<close>

lemma store_one_Inr:
  assumes "store_one md5_hex cfg req user now info acc w = (Inr acc1, w1)"
  shows "uploads w (i_filename info) \<noteq> None"
    and "files_tbl w1 = files_tbl w"
    and "albums_tbl w1 = albums_tbl w"
    and "chunksData w1 = chunksData w \<and> chunkDirs w1 = chunkDirs w \<and> idSet w1 = idSet w \<and> draws w1 = draws w"
    and "uploads w1 = (if existing_for md5_hex user w info = None then uploads w
                       else (uploads w)(i_filename info := None))"
    and "acc_files acc1 = acc_files acc @
           (if existing_for md5_hex user w info = None
            then [new_data cfg req user now info (md5_hex (the (uploads w (i_filename info))))] else [])"
    and "acc_exists acc1 = acc_exists acc @
           (case existing_for md5_hex user w info of None \<Rightarrow> [] | Some d \<Rightarrow> [exists_entry req info d])"
  using assms
  by (auto simp: store_one_def existing_for_def unlinkFile_def Let_def
      split: option.splits if_splits)

lemma store_one_Inl:
  "store_one md5_hex cfg req user now info acc w = (Inl e, w1) \<Longrightarrow> files_tbl w1 = files_tbl w"
  by (auto simp: store_one_def Let_def unlinkFile_def split: option.splits)

lemma store_all_files_tbl:
  "store_all md5_hex cfg req user now infos acc w = (r, w') \<Longrightarrow> files_tbl w' = files_tbl w"
proof (induction infos arbitrary: acc w)
  case Nil
  then show ?case by simp
next
  case (Cons info infos)
  obtain r1 w1 where one: "store_one md5_hex cfg req user now info acc w = (r1, w1)"
    by (cases "store_one md5_hex cfg req user now info acc w")
  show ?case
  proof (cases r1)
    case (Inl e)
    with one Cons.prems store_one_Inl [of md5_hex cfg req user now info acc w e w1] show ?thesis
      by simp
  next
    case (Inr acc1)
    with one Cons.prems have "store_all md5_hex cfg req user now infos acc1 w1 = (r, w')"
      by simp
    from Cons.IH [OF this] store_one_Inr(2) [of md5_hex cfg req user now info acc w acc1 w1] one Inr
    show ?thesis by simp
  qed
qed

lemma existing_for_cong:
  "uploads w1 (i_filename i) = uploads w (i_filename i) \<Longrightarrow> files_tbl w1 = files_tbl w \<Longrightarrow>
     existing_for md5_hex user w1 i = existing_for md5_hex user w i"
  by (simp add: existing_for_def split: option.splits)

lemma store_all_Inr:
  assumes "store_all md5_hex cfg req user now infos acc w = (Inr acc', w')"
    and "distinct (map i_filename infos)"
  shows "(\<forall>i \<in> set infos. uploads w (i_filename i) \<noteq> None) \<and>
     albums_tbl w' = albums_tbl w \<and>
     uploads w' = (\<lambda>n. if \<exists>i \<in> set infos. i_filename i = n \<and> existing_for md5_hex user w i \<noteq> None
                        then None else uploads w n) \<and>
     acc_files acc' = acc_files acc @
        map (\<lambda>i. new_data cfg req user now i (md5_hex (the (uploads w (i_filename i)))))
          (filter (\<lambda>i. existing_for md5_hex user w i = None) infos) \<and>
     acc_exists acc' = acc_exists acc @
        map (\<lambda>i. exists_entry req i (the (existing_for md5_hex user w i)))
          (filter (\<lambda>i. existing_for md5_hex user w i \<noteq> None) infos)"
  using assms
proof (induction infos arbitrary: acc w)
  case Nil
  then show ?case by auto
next
  case (Cons info infos)
  obtain r1 w1 where one: "store_one md5_hex cfg req user now info acc w = (r1, w1)"
    by (cases "store_one md5_hex cfg req user now info acc w")
  with Cons.prems(1) obtain acc1 where r1: "r1 = Inr acc1"
    and rest: "store_all md5_hex cfg req user now infos acc1 w1 = (Inr acc', w')"
    by (cases r1) auto
  note o = store_one_Inr [OF one [unfolded r1]]
  from Cons.prems(2) have dist: "distinct (map i_filename infos)"
    by simp
  from Cons.prems(2) have "i_filename info \<notin> i_filename ` set infos"
    by simp
  then have fresh: "\<forall>i \<in> set infos. i_filename i \<noteq> i_filename info"
    by (metis imageI)
  have up: "uploads w1 (i_filename i) = uploads w (i_filename i)" if "i \<in> set infos" for i
    using o(5) fresh that by (auto split: if_splits)
  have ex: "existing_for md5_hex user w1 i = existing_for md5_hex user w i" if "i \<in> set infos" for i
    using existing_for_cong [OF up [OF that] o(2)] .
  note IH = Cons.IH [OF rest dist]
  have 1: "\<forall>i \<in> set (info # infos). uploads w (i_filename i) \<noteq> None"
    using IH o(1) up by auto
  have 2: "albums_tbl w' = albums_tbl w"
    using IH o(3) by simp
  have f1: "filter (\<lambda>i. existing_for md5_hex user w1 i = None) infos =
            filter (\<lambda>i. existing_for md5_hex user w i = None) infos"
    by (rule filter_cong) (simp_all add: ex)
  have f2: "filter (\<lambda>i. existing_for md5_hex user w1 i \<noteq> None) infos =
            filter (\<lambda>i. existing_for md5_hex user w i \<noteq> None) infos"
    by (rule filter_cong) (simp_all add: ex)
  have 4: "acc_files acc' = acc_files acc @
        map (\<lambda>i. new_data cfg req user now i (md5_hex (the (uploads w (i_filename i)))))
          (filter (\<lambda>i. existing_for md5_hex user w i = None) (info # infos))"
  proof -
    have "map (\<lambda>i. new_data cfg req user now i (md5_hex (the (uploads w1 (i_filename i)))))
            (filter (\<lambda>i. existing_for md5_hex user w i = None) infos) =
          map (\<lambda>i. new_data cfg req user now i (md5_hex (the (uploads w (i_filename i)))))
            (filter (\<lambda>i. existing_for md5_hex user w i = None) infos)"
      by (rule map_cong) (simp_all add: up)
    with IH f1 o(6) show ?thesis by simp
  qed
  have 5: "acc_exists acc' = acc_exists acc @
        map (\<lambda>i. exists_entry req i (the (existing_for md5_hex user w i)))
          (filter (\<lambda>i. existing_for md5_hex user w i \<noteq> None) (info # infos))"
  proof -
    have "map (\<lambda>i. exists_entry req i (the (existing_for md5_hex user w1 i)))
            (filter (\<lambda>i. existing_for md5_hex user w i \<noteq> None) infos) =
          map (\<lambda>i. exists_entry req i (the (existing_for md5_hex user w i)))
            (filter (\<lambda>i. existing_for md5_hex user w i \<noteq> None) infos)"
      by (rule map_cong) (simp_all add: ex)
    with IH f2 o(7) show ?thesis by (auto split: option.splits)
  qed
  have 3: "uploads w' = (\<lambda>n. if \<exists>i \<in> set (info # infos). i_filename i = n \<and> existing_for md5_hex user w i \<noteq> None
                        then None else uploads w n)"
  proof (rule ext)
    fix n
    from IH have "uploads w' n = (if \<exists>i \<in> set infos. i_filename i = n \<and> existing_for md5_hex user w1 i \<noteq> None
                        then None else uploads w1 n)"
      by simp
    also have "\<dots> = (if \<exists>i \<in> set infos. i_filename i = n \<and> existing_for md5_hex user w i \<noteq> None
                        then None else uploads w1 n)"
      using ex by (metis (no_types, lifting))
    also have "\<dots> = (if \<exists>i \<in> set (info # infos). i_filename i = n \<and> existing_for md5_hex user w i \<noteq> None
                        then None else uploads w n)"
      using o(5) by (auto split: if_splits)
    finally show "uploads w' n = (if \<exists>i \<in> set (info # infos). i_filename i = n \<and> existing_for md5_hex user w i \<noteq> None
                        then None else uploads w n)" .
  qed
  from 1 2 3 4 5 show ?case by blast
qed

lemma storeFilesToDb_after_all:
  assumes all: "store_all md5_hex cfg req user now infoMap
                  \<lparr>acc_files = [], acc_exists = [], acc_albumids = []\<rparr> w = (Inr acc, w1)"
  shows "\<exists>g w'. storeFilesToDb md5_hex cfg req user now infoMap w =
              (Inr (map stored_of (map g (acc_files acc)) @ acc_exists acc), w') \<and>
           files_tbl w' = files_tbl w1 @ map g (acc_files acc) \<and>
           uploads w' = uploads w1 \<and>
           (\<forall>f. (g f)\<lparr>f_albumid := None\<rparr> = f\<lparr>f_albumid := None\<rparr>)"
proof (cases "acc_albumids acc = []")
  case True
  show ?thesis
  proof (intro exI conjI)
    show "storeFilesToDb md5_hex cfg req user now infoMap w =
        (Inr (map stored_of (map (\<lambda>f. f) (acc_files acc)) @ acc_exists acc),
         if acc_files acc \<noteq> [] then w1\<lparr>files_tbl := files_tbl w1 @ acc_files acc\<rparr> else w1)"
      using True by (simp add: storeFilesToDb_def all Let_def)
  qed simp_all
next
  case False
  define ids where "ids = (case user of
                         None \<Rightarrow> []
                       | Some u \<Rightarrow>
                           map a_id (filter (\<lambda>a. a_userid a = u_id u \<and> a_id a \<in> set (acc_albumids acc))
                                       (albums_tbl w1)))"
  define g where "g = (\<lambda>file :: file_row. case f_albumid file of
                                    None \<Rightarrow> file
                                  | Some a \<Rightarrow>
                                      if a \<notin> set ids then file\<lparr>f_albumid := None\<rparr>
                                      else file)"
  have ga: "(g f)\<lparr>f_albumid := None\<rparr> = f\<lparr>f_albumid := None\<rparr>" for f
    by (simp add: g_def split: option.splits)
  show ?thesis
  proof (intro exI conjI)
    show "storeFilesToDb md5_hex cfg req user now infoMap w =
        (Inr (map stored_of (map g (acc_files acc)) @ acc_exists acc),
         if acc_files acc \<noteq> [] then
           (if ids \<noteq> [] then
              w1\<lparr>files_tbl := files_tbl w1 @ map g (acc_files acc),
                 albums_tbl :=
                   map (\<lambda>a. if a_id a \<in> set ids then a\<lparr>a_editedAt := now\<rparr> else a) (albums_tbl w1)\<rparr>
            else w1\<lparr>files_tbl := files_tbl w1 @ map g (acc_files acc)\<rparr>)
         else w1)"
      unfolding storeFilesToDb_def all g_def ids_def Let_def using False by simp
  qed (simp_all add: ga)
qed

lemma storeFilesToDb_Inr:
  assumes run: "storeFilesToDb md5_hex cfg req user now infoMap w = (Inr result, w')"
    and dist: "distinct (map i_filename infoMap)"
  shows "\<exists>new. files_tbl w' = files_tbl w @ new \<and>
     map (\<lambda>f. f\<lparr>f_albumid := None\<rparr>) new =
       map (\<lambda>i. (new_data cfg req user now i (md5_hex (the (uploads w (i_filename i)))))\<lparr>f_albumid := None\<rparr>)
         (filter (\<lambda>i. existing_for md5_hex user w i = None) infoMap) \<and>
     result = map stored_of new @
       map (\<lambda>i. exists_entry req i (the (existing_for md5_hex user w i)))
         (filter (\<lambda>i. existing_for md5_hex user w i \<noteq> None) infoMap) \<and>
     uploads w' = (\<lambda>n. if \<exists>i \<in> set infoMap. i_filename i = n \<and> existing_for md5_hex user w i \<noteq> None
                        then None else uploads w n) \<and>
     (\<forall>i \<in> set infoMap. uploads w (i_filename i) \<noteq> None)"
proof -
  let ?acc0 = "\<lparr>acc_files = [], acc_exists = [], acc_albumids = []\<rparr>"
  obtain r1 w1 where all: "store_all md5_hex cfg req user now infoMap ?acc0 w = (r1, w1)"
    by (cases "store_all md5_hex cfg req user now infoMap ?acc0 w")
  with run obtain acc where r1: "r1 = Inr acc"
    by (cases r1) (auto simp: storeFilesToDb_def)
  note A = store_all_Inr [OF all [unfolded r1] dist]
  note T = store_all_files_tbl [OF all]
  let ?data = "map (\<lambda>i. new_data cfg req user now i (md5_hex (the (uploads w (i_filename i)))))
          (filter (\<lambda>i. existing_for md5_hex user w i = None) infoMap)"
  let ?ex = "map (\<lambda>i. exists_entry req i (the (existing_for md5_hex user w i)))
         (filter (\<lambda>i. existing_for md5_hex user w i \<noteq> None) infoMap)"
  from A have files: "acc_files acc = ?data" and ex: "acc_exists acc = ?ex"
    and up: "uploads w1 = (\<lambda>n. if \<exists>i \<in> set infoMap. i_filename i = n \<and> existing_for md5_hex user w i \<noteq> None
                        then None else uploads w n)"
    and rd: "\<forall>i \<in> set infoMap. uploads w (i_filename i) \<noteq> None"
    by simp_all
  from storeFilesToDb_after_all [OF all [unfolded r1]] run
  obtain g where res: "result = map stored_of (map g (acc_files acc)) @ acc_exists acc"
    and tbl: "files_tbl w' = files_tbl w1 @ map g (acc_files acc)"
    and up': "uploads w' = uploads w1"
    and ga: "\<forall>f. (g f)\<lparr>f_albumid := None\<rparr> = f\<lparr>f_albumid := None\<rparr>"
    by auto
  have "map (\<lambda>f. f\<lparr>f_albumid := None\<rparr>) (map g (acc_files acc)) =
       map (\<lambda>i. (new_data cfg req user now i (md5_hex (the (uploads w (i_filename i)))))\<lparr>f_albumid := None\<rparr>)
         (filter (\<lambda>i. existing_for md5_hex user w i = None) infoMap)"
    using ga files by (simp add: comp_def)
  with res tbl up' ex up rd T show ?thesis
    by (intro exI [of _ "map g (acc_files acc)"]) simp
qed

lemma find_existing_Some:
  "find_existing user h sz tbl = Some d \<Longrightarrow>
     d \<in> set tbl \<and> f_userid d = map_option u_id user \<and> f_hash d = h \<and> f_size d = sz"
  by (cases user) (auto simp: find_existing_def find_Some_iff)

lemma find_existing_None_iff:
  "find_existing user h sz tbl = None \<longleftrightarrow>
     \<not> (\<exists>r \<in> set tbl. f_userid r = map_option u_id user \<and> f_hash r = h \<and> f_size r = sz)"
  by (cases user) (auto simp: find_existing_def find_None_iff)

lemma sendUploadResponse_exists:
  assumes "exists_entry req info d \<in> set result"
  shows "\<exists>e \<in> set (sendUploadResponse cfg req result).
           res_name e = f_name d \<and> res_url e = domain cfg @ ''/'' @ f_name d \<and>
           res_expirydate e = (case f_expirydate d of None \<Rightarrow> None
                               | Some x \<Rightarrow> if x = 0 then None else Some x)"
proof -
  let ?e = "\<lparr>res_name = f_name d, res_url = domain cfg @ ''/'' @ f_name d,
     res_expirydate = (if truthy_num (f_expirydate d) then f_expirydate d else None),
     res_original = (if req_nojs req then s_original (exists_entry req info d) else None)\<rparr>"
  from assms have "?e \<in> set (sendUploadResponse cfg req result)"
    by (force simp: sendUploadResponse_def exists_entry_def image_iff)
  moreover have "res_expirydate ?e = (case f_expirydate d of None \<Rightarrow> None
                               | Some x \<Rightarrow> if x = 0 then None else Some x)"
    by (simp add: truthy_num_def split: option.splits)
  ultimately show ?thesis
    by (intro bexI [of _ ?e]) simp_all
qed

lemma storeFilesToDb_duplicate:
  assumes run: "storeFilesToDb md5_hex cfg req user now infoMap w = (Inr result, w')"
    and dist: "distinct (map i_filename infoMap)"
    and mem: "info \<in> set infoMap"
    and content: "uploads w (i_filename info) = Some content"
    and row: "r \<in> set (files_tbl w)" "f_hash r = md5_hex content" "f_size r = i_size info"
      "f_userid r = map_option u_id user"
  shows "\<exists>new d. files_tbl w' = files_tbl w @ new \<and> i_filename info \<notin> f_name ` set new \<and>
     uploads w' (i_filename info) = None \<and>
     d \<in> set (files_tbl w) \<and> f_hash d = md5_hex content \<and> f_size d = i_size info \<and>
     f_userid d = map_option u_id user \<and>
     (\<exists>e \<in> set (sendUploadResponse cfg req result).
        res_name e = f_name d \<and> res_url e = domain cfg @ ''/'' @ f_name d \<and>
        res_expirydate e = (case f_expirydate d of None \<Rightarrow> None
                            | Some x \<Rightarrow> if x = 0 then None else Some x))"
proof -
  from row have "find_existing user (md5_hex content) (i_size info) (files_tbl w) \<noteq> None"
    by (auto simp: find_existing_None_iff)
  then obtain d where d: "find_existing user (md5_hex content) (i_size info) (files_tbl w) = Some d"
    by auto
  with content have ex: "existing_for md5_hex user w info = Some d"
    by (simp add: existing_for_def)
  note dm = find_existing_Some [OF d]
  from storeFilesToDb_Inr [OF run dist] obtain new where
    tbl: "files_tbl w' = files_tbl w @ new"
    and new: "map (\<lambda>f. f\<lparr>f_albumid := None\<rparr>) new =
       map (\<lambda>i. (new_data cfg req user now i (md5_hex (the (uploads w (i_filename i)))))\<lparr>f_albumid := None\<rparr>)
         (filter (\<lambda>i. existing_for md5_hex user w i = None) infoMap)"
    and res: "result = map stored_of new @
       map (\<lambda>i. exists_entry req i (the (existing_for md5_hex user w i)))
         (filter (\<lambda>i. existing_for md5_hex user w i \<noteq> None) infoMap)"
    and up: "uploads w' = (\<lambda>n. if \<exists>i \<in> set infoMap. i_filename i = n \<and> existing_for md5_hex user w i \<noteq> None
                        then None else uploads w n)"
    by blast
  have "map f_name (map (\<lambda>f. f\<lparr>f_albumid := None\<rparr>) new) =
        map f_name (map (\<lambda>i. (new_data cfg req user now i (md5_hex (the (uploads w (i_filename i)))))\<lparr>f_albumid := None\<rparr>)
         (filter (\<lambda>i. existing_for md5_hex user w i = None) infoMap))"
    using new by simp
  then have names: "map f_name new = map i_filename (filter (\<lambda>i. existing_for md5_hex user w i = None) infoMap)"
    by (simp add: comp_def new_data_def)
  have inj: "inj_on i_filename (set infoMap)"
    using dist by (simp add: distinct_map)
  have fresh: "i_filename info \<notin> f_name ` set new"
  proof
    assume "i_filename info \<in> f_name ` set new"
    then have "i_filename info \<in> set (map f_name new)" by simp
    with names obtain i where "i \<in> set infoMap" "existing_for md5_hex user w i = None"
      "i_filename i = i_filename info"
      by auto
    with inj mem have "i = info" by (auto dest: inj_onD)
    with \<open>existing_for md5_hex user w i = None\<close> ex show False by simp
  qed
  from up mem ex have gone: "uploads w' (i_filename info) = None"
    by auto
  from mem ex res have "exists_entry req info d \<in> set result"
    by force
  from sendUploadResponse_exists [OF this, of cfg] tbl fresh gone dm show ?thesis
    by blast
qed

lemma storeFilesToDb_single_new:
  assumes content: "uploads w (i_filename info) = Some content"
    and none: "find_existing user (md5_hex content) (i_size info) (files_tbl w) = None"
  shows "\<exists>row w1. storeFilesToDb md5_hex cfg req user now [info] w = (Inr [stored_of row], w1) \<and>
     files_tbl w1 = files_tbl w @ [row] \<and> uploads w1 = uploads w \<and>
     row\<lparr>f_albumid := None\<rparr> = (new_data cfg req user now info (md5_hex content))\<lparr>f_albumid := None\<rparr>"
proof -
  let ?acc0 = "\<lparr>acc_files = [], acc_exists = [], acc_albumids = []\<rparr>"
  obtain acc where all: "store_all md5_hex cfg req user now [info] ?acc0 w = (Inr acc, w)"
    and files: "acc_files acc = [new_data cfg req user now info (md5_hex content)]"
    and ex: "acc_exists acc = []"
    using content none by (simp add: store_one_def Let_def)
  from storeFilesToDb_after_all [OF all] files ex show ?thesis
    by auto
qed

lemma storeFilesToDb_two_owners:
  assumes scope: "map_option u_id user1 \<noteq> map_option u_id user2"
    and c1: "uploads w (i_filename info1) = Some content"
    and c2: "uploads w (i_filename info2) = Some content"
    and sz: "i_size info1 = i_size info2"
    and fresh: "\<forall>r \<in> set (files_tbl w). \<not> (f_hash r = md5_hex content \<and> f_size r = i_size info1)"
  shows "\<exists>row1 row2 w1 w2.
     storeFilesToDb md5_hex cfg req1 user1 now1 [info1] w = (Inr [stored_of row1], w1) \<and>
     storeFilesToDb md5_hex cfg req2 user2 now2 [info2] w1 = (Inr [stored_of row2], w2) \<and>
     files_tbl w2 = files_tbl w @ [row1, row2] \<and>
     f_name row1 = i_filename info1 \<and> f_name row2 = i_filename info2 \<and>
     f_userid row1 = map_option u_id user1 \<and> f_userid row2 = map_option u_id user2 \<and>
     f_hash row1 = md5_hex content \<and> f_hash row2 = md5_hex content \<and> row1 \<noteq> row2"
proof -
  from fresh have n1: "find_existing user1 (md5_hex content) (i_size info1) (files_tbl w) = None"
    by (auto simp: find_existing_None_iff)
  from storeFilesToDb_single_new [where md5_hex = md5_hex and cfg = cfg and req = req1 and now = now1, OF c1 n1] obtain row1 w1 where
    s1: "storeFilesToDb md5_hex cfg req1 user1 now1 [info1] w = (Inr [stored_of row1], w1)"
    and t1: "files_tbl w1 = files_tbl w @ [row1]" and u1: "uploads w1 = uploads w"
    and r1: "row1\<lparr>f_albumid := None\<rparr> = (new_data cfg req1 user1 now1 info1 (md5_hex content))\<lparr>f_albumid := None\<rparr>"
    by blast
  from r1 have "f_name (row1\<lparr>f_albumid := None\<rparr>) = i_filename info1"
    "f_userid (row1\<lparr>f_albumid := None\<rparr>) = map_option u_id user1"
    "f_hash (row1\<lparr>f_albumid := None\<rparr>) = md5_hex content"
    by (simp_all add: new_data_def split: option.splits)
  then have p1: "f_name row1 = i_filename info1" "f_userid row1 = map_option u_id user1"
    "f_hash row1 = md5_hex content"
    by simp_all
  from c2 u1 have c2': "uploads w1 (i_filename info2) = Some content" by simp
  from fresh scope p1 sz have n2: "find_existing user2 (md5_hex content) (i_size info2) (files_tbl w1) = None"
    by (auto simp: find_existing_None_iff t1)
  from storeFilesToDb_single_new [where md5_hex = md5_hex and cfg = cfg and req = req2 and now = now2, OF c2' n2] obtain row2 w2 where
    s2: "storeFilesToDb md5_hex cfg req2 user2 now2 [info2] w1 = (Inr [stored_of row2], w2)"
    and t2: "files_tbl w2 = files_tbl w1 @ [row2]"
    and r2: "row2\<lparr>f_albumid := None\<rparr> = (new_data cfg req2 user2 now2 info2 (md5_hex content))\<lparr>f_albumid := None\<rparr>"
    by blast
  from r2 have "f_name (row2\<lparr>f_albumid := None\<rparr>) = i_filename info2"
    "f_userid (row2\<lparr>f_albumid := None\<rparr>) = map_option u_id user2"
    "f_hash (row2\<lparr>f_albumid := None\<rparr>) = md5_hex content"
    by (simp_all add: new_data_def split: option.splits)
  then have p2: "f_name row2 = i_filename info2" "f_userid row2 = map_option u_id user2"
    "f_hash row2 = md5_hex content"
    by simp_all
  from p1 p2 scope have "row1 \<noteq> row2" by auto
  with s1 s2 t1 t2 p1 p2 show ?thesis
    by (intro exI [of _ row1] exI [of _ row2] exI [of _ w1] exI [of _ w2]) simp
qed

text \<open>
  C1. Let a batch with distinct file names be persisted by \<^verbatim>\<open>storeFilesToDb\<close>, and let
  a row of the table match a file of the batch in content hash, size and owner scope
  (\<^verbatim>\<open>userid\<close> is \<^verbatim>\<open>NULL\<close> for an anonymous upload). Then no inserted row carries
  the file's name, the newly written file is gone from the uploads, and the response has
  an entry with the name and the URL of a matching row of the table and with its expiry
  date (left out when the row has none, or the falsy date 0). And the same bytes uploaded
  by two owners of different scope, one after the other, into a table that has no row of
  this hash and size, are stored as two distinct rows, one per owner.
\<close>

theorem storeFilesToDb_dedup:
  "(storeFilesToDb md5_hex cfg req user now infoMap w = (Inr result, w') \<and>
    distinct (map i_filename infoMap) \<and> info \<in> set infoMap \<and>
    uploads w (i_filename info) = Some content \<and>
    r \<in> set (files_tbl w) \<and> f_hash r = md5_hex content \<and> f_size r = i_size info \<and>
    f_userid r = map_option u_id user \<longrightarrow>
    (\<exists>new d. files_tbl w' = files_tbl w @ new \<and> i_filename info \<notin> f_name ` set new \<and>
       uploads w' (i_filename info) = None \<and>
       d \<in> set (files_tbl w) \<and> f_hash d = md5_hex content \<and> f_size d = i_size info \<and>
       f_userid d = map_option u_id user \<and>
       (\<exists>e \<in> set (sendUploadResponse cfg req result).
          res_name e = f_name d \<and> res_url e = domain cfg @ ''/'' @ f_name d \<and>
          res_expirydate e = (case f_expirydate d of None \<Rightarrow> None
                              | Some x \<Rightarrow> if x = 0 then None else Some x)))) \<and>
   (map_option u_id user1 \<noteq> map_option u_id user2 \<and>
    uploads v (i_filename info1) = Some bytes \<and> uploads v (i_filename info2) = Some bytes \<and>
    i_size info1 = i_size info2 \<and>
    (\<forall>r \<in> set (files_tbl v). \<not> (f_hash r = md5_hex bytes \<and> f_size r = i_size info1)) \<longrightarrow>
    (\<exists>row1 row2 v1 v2.
       storeFilesToDb md5_hex cfg req1 user1 now1 [info1] v = (Inr [stored_of row1], v1) \<and>
       storeFilesToDb md5_hex cfg req2 user2 now2 [info2] v1 = (Inr [stored_of row2], v2) \<and>
       files_tbl v2 = files_tbl v @ [row1, row2] \<and>
       f_name row1 = i_filename info1 \<and> f_name row2 = i_filename info2 \<and>
       f_userid row1 = map_option u_id user1 \<and> f_userid row2 = map_option u_id user2 \<and>
       f_hash row1 = md5_hex bytes \<and> f_hash row2 = md5_hex bytes \<and> row1 \<noteq> row2))"
proof (intro conjI impI)
  assume h: "storeFilesToDb md5_hex cfg req user now infoMap w = (Inr result, w') \<and>
    distinct (map i_filename infoMap) \<and> info \<in> set infoMap \<and>
    uploads w (i_filename info) = Some content \<and>
    r \<in> set (files_tbl w) \<and> f_hash r = md5_hex content \<and> f_size r = i_size info \<and>
    f_userid r = map_option u_id user"
  show "\<exists>new d. files_tbl w' = files_tbl w @ new \<and> i_filename info \<notin> f_name ` set new \<and>
       uploads w' (i_filename info) = None \<and>
       d \<in> set (files_tbl w) \<and> f_hash d = md5_hex content \<and> f_size d = i_size info \<and>
       f_userid d = map_option u_id user \<and>
       (\<exists>e \<in> set (sendUploadResponse cfg req result).
          res_name e = f_name d \<and> res_url e = domain cfg @ ''/'' @ f_name d \<and>
          res_expirydate e = (case f_expirydate d of None \<Rightarrow> None
                              | Some x \<Rightarrow> if x = 0 then None else Some x))"
    using storeFilesToDb_duplicate
      [of md5_hex cfg req user now infoMap w result w' info content r] h
    by blast
next
  assume h: "map_option u_id user1 \<noteq> map_option u_id user2 \<and>
    uploads v (i_filename info1) = Some bytes \<and> uploads v (i_filename info2) = Some bytes \<and>
    i_size info1 = i_size info2 \<and>
    (\<forall>r \<in> set (files_tbl v). \<not> (f_hash r = md5_hex bytes \<and> f_size r = i_size info1))"
  show "\<exists>row1 row2 v1 v2.
       storeFilesToDb md5_hex cfg req1 user1 now1 [info1] v = (Inr [stored_of row1], v1) \<and>
       storeFilesToDb md5_hex cfg req2 user2 now2 [info2] v1 = (Inr [stored_of row2], v2) \<and>
       files_tbl v2 = files_tbl v @ [row1, row2] \<and>
       f_name row1 = i_filename info1 \<and> f_name row2 = i_filename info2 \<and>
       f_userid row1 = map_option u_id user1 \<and> f_userid row2 = map_option u_id user2 \<and>
       f_hash row1 = md5_hex bytes \<and> f_hash row2 = md5_hex bytes \<and> row1 \<noteq> row2"
    using storeFilesToDb_two_owners
      [of user1 user2 v info1 bytes info2 md5_hex cfg req1 now1 req2 now2] h
    by blast
qed

text \<open>
  An anonymous upload of bytes already stored anonymously answers with the old name and
  expiry date and deletes the new file; the same bytes uploaded by two users give two rows.
\<close>

theorem storeFilesToDb_dedup_witness:
  "storeFilesToDb (\<lambda>c. c) sample_config \<lparr>req_nojs = False, req_ip = ''10.0.0.1''\<rparr> None 1600000100
     [sample_info]
     (empty_world\<lparr>uploads := [''n3wN4me.txt'' \<mapsto> ''hello''], files_tbl := [sample_row]\<rparr>) =
     (Inr [\<lparr>s_name = ''0ldN4me.txt'', s_expirydate = Some 1600086400, s_original = None\<rparr>],
      empty_world\<lparr>uploads := Map.empty, files_tbl := [sample_row]\<rparr>) \<and>
   sendUploadResponse sample_config \<lparr>req_nojs = False, req_ip = ''10.0.0.1''\<rparr>
     [\<lparr>s_name = ''0ldN4me.txt'', s_expirydate = Some 1600086400, s_original = None\<rparr>] =
     [\<lparr>res_name = ''0ldN4me.txt'', res_url = ''https://safe.example/0ldN4me.txt'',
       res_expirydate = Some 1600086400, res_original = None\<rparr>] \<and>
   (\<exists>row1 row2 v1 v2.
       storeFilesToDb (\<lambda>c. c) sample_config \<lparr>req_nojs = False, req_ip = ''10.0.0.1''\<rparr>
         (Some \<lparr>u_id = 1, u_username = ''ann''\<rparr>) 1600000100 [sample_info]
         (empty_world\<lparr>uploads := [''n3wN4me.txt'' \<mapsto> ''hello'', ''0therOne.txt'' \<mapsto> ''hello'']\<rparr>) =
         (Inr [stored_of row1], v1) \<and>
       storeFilesToDb (\<lambda>c. c) sample_config \<lparr>req_nojs = False, req_ip = ''10.0.0.1''\<rparr>
         (Some \<lparr>u_id = 2, u_username = ''bob''\<rparr>) 1600000200
         [sample_info\<lparr>i_filename := ''0therOne.txt''\<rparr>] v1 = (Inr [stored_of row2], v2) \<and>
       files_tbl v2 = [row1, row2] \<and> f_userid row1 = Some 1 \<and> f_userid row2 = Some 2 \<and>
       row1 \<noteq> row2)"
proof -
  let ?req = "\<lparr>req_nojs = False, req_ip = ''10.0.0.1''\<rparr>"
  let ?w = "empty_world\<lparr>uploads := [''n3wN4me.txt'' \<mapsto> ''hello''], files_tbl := [sample_row]\<rparr>"
  let ?res = "[\<lparr>s_name = ''0ldN4me.txt'', s_expirydate = Some 1600086400, s_original = None\<rparr>]"
  let ?w' = "empty_world\<lparr>uploads := Map.empty, files_tbl := [sample_row]\<rparr>"
  let ?v = "empty_world\<lparr>uploads := [''n3wN4me.txt'' \<mapsto> ''hello'', ''0therOne.txt'' \<mapsto> ''hello'']\<rparr>"
  have run: "storeFilesToDb (\<lambda>c. c) sample_config ?req None 1600000100 [sample_info] ?w = (Inr ?res, ?w')"
    by (simp add: storeFilesToDb_def store_one_def find_existing_def exists_entry_def
        unlinkFile_def sample_info_def sample_row_def empty_world_def Let_def)
  have resp: "sendUploadResponse sample_config ?req ?res =
     [\<lparr>res_name = ''0ldN4me.txt'', res_url = ''https://safe.example/0ldN4me.txt'',
       res_expirydate = Some 1600086400, res_original = None\<rparr>]"
    by (simp add: sendUploadResponse_def sample_config_def truthy_num_def)
  have hyp1: "storeFilesToDb (\<lambda>c. c) sample_config ?req None 1600000100 [sample_info] ?w = (Inr ?res, ?w') \<and>
    distinct (map i_filename [sample_info]) \<and> sample_info \<in> set [sample_info] \<and>
    uploads ?w (i_filename sample_info) = Some ''hello'' \<and>
    sample_row \<in> set (files_tbl ?w) \<and> f_hash sample_row = (\<lambda>c. c) ''hello'' \<and>
    f_size sample_row = i_size sample_info \<and> f_userid sample_row = map_option u_id None"
    using run by (simp add: sample_info_def sample_row_def)
  have hyp2: "map_option u_id (Some \<lparr>u_id = 1, u_username = ''ann''\<rparr>) \<noteq>
      map_option u_id (Some \<lparr>u_id = 2, u_username = ''bob''\<rparr>) \<and>
    uploads ?v (i_filename sample_info) = Some ''hello'' \<and>
    uploads ?v (i_filename (sample_info\<lparr>i_filename := ''0therOne.txt''\<rparr>)) = Some ''hello'' \<and>
    i_size sample_info = i_size (sample_info\<lparr>i_filename := ''0therOne.txt''\<rparr>) \<and>
    (\<forall>r \<in> set (files_tbl ?v). \<not> (f_hash r = (\<lambda>c. c) ''hello'' \<and> f_size r = i_size sample_info))"
    by (simp add: sample_info_def empty_world_def)
  note T = storeFilesToDb_dedup
    [where md5_hex = "\<lambda>c. c" and cfg = sample_config and req = ?req and user = None
      and now = 1600000100 and infoMap = "[sample_info]" and w = ?w and result = ?res and w' = ?w'
      and info = sample_info and content = "''hello''" and r = sample_row
      and ?user1.0 = "Some \<lparr>u_id = 1, u_username = ''ann''\<rparr>"
      and ?user2.0 = "Some \<lparr>u_id = 2, u_username = ''bob''\<rparr>"
      and v = ?v and ?info1.0 = sample_info
      and ?info2.0 = "sample_info\<lparr>i_filename := ''0therOne.txt''\<rparr>" and bytes = "''hello''"
      and ?req1.0 = ?req and ?req2.0 = ?req and ?now1.0 = 1600000100 and ?now2.0 = 1600000200]
  from T [THEN conjunct2, rule_format, OF hyp2]
  obtain row1 row2 v1 v2 where
    "storeFilesToDb (\<lambda>c. c) sample_config ?req (Some \<lparr>u_id = 1, u_username = ''ann''\<rparr>) 1600000100
        [sample_info] ?v = (Inr [stored_of row1], v1)"
    "storeFilesToDb (\<lambda>c. c) sample_config ?req (Some \<lparr>u_id = 2, u_username = ''bob''\<rparr>) 1600000200
        [sample_info\<lparr>i_filename := ''0therOne.txt''\<rparr>] v1 = (Inr [stored_of row2], v2)"
    "files_tbl v2 = files_tbl ?v @ [row1, row2]" "f_userid row1 = Some 1" "f_userid row2 = Some 2"
    "row1 \<noteq> row2"
    by auto
  then have two: "\<exists>row1 row2 v1 v2.
       storeFilesToDb (\<lambda>c. c) sample_config ?req
         (Some \<lparr>u_id = 1, u_username = ''ann''\<rparr>) 1600000100 [sample_info] ?v =
         (Inr [stored_of row1], v1) \<and>
       storeFilesToDb (\<lambda>c. c) sample_config ?req
         (Some \<lparr>u_id = 2, u_username = ''bob''\<rparr>) 1600000200
         [sample_info\<lparr>i_filename := ''0therOne.txt''\<rparr>] v1 = (Inr [stored_of row2], v2) \<and>
       files_tbl v2 = [row1, row2] \<and> f_userid row1 = Some 1 \<and> f_userid row2 = Some 2 \<and>
       row1 \<noteq> row2"
    by (intro exI [of _ row1] exI [of _ row2] exI [of _ v1] exI [of _ v2])
      (simp add: empty_world_def)
  from run resp two T [THEN conjunct1, rule_format, OF hyp1] show ?thesis
    by blast
qed

lemma storeFilesToDb_new_row:
  assumes run: "storeFilesToDb md5_hex cfg req user now infoMap w = (Inr result, w')"
    and dist: "distinct (map i_filename infoMap)"
    and mem: "info \<in> set infoMap"
    and none: "existing_for md5_hex user w info = None"
  shows "\<exists>row \<in> set (files_tbl w'). f_name row = i_filename info \<and>
           f_expirydate row =
             (if truthy_num (i_age info) then Some (of_int now + the (i_age info) * 3600) else None)"
proof -
  let ?d = "\<lambda>i. (new_data cfg req user now i (md5_hex (the (uploads w (i_filename i)))))\<lparr>f_albumid := None\<rparr>"
  from storeFilesToDb_Inr [OF run dist] obtain new where
    tbl: "files_tbl w' = files_tbl w @ new"
    and new: "map (\<lambda>f. f\<lparr>f_albumid := None\<rparr>) new =
       map ?d (filter (\<lambda>i. existing_for md5_hex user w i = None) infoMap)"
    by blast
  from mem none have "?d info \<in> set (map ?d (filter (\<lambda>i. existing_for md5_hex user w i = None) infoMap))"
    by simp
  with new have "?d info \<in> set (map (\<lambda>f. f\<lparr>f_albumid := None\<rparr>) new)"
    by simp
  then obtain row where row: "row \<in> set new" "row\<lparr>f_albumid := None\<rparr> = ?d info"
    by auto
  from row(2) have "f_name (row\<lparr>f_albumid := None\<rparr>) = f_name (?d info)"
    "f_expirydate (row\<lparr>f_albumid := None\<rparr>) = f_expirydate (?d info)"
    by simp_all
  then have "f_name row = i_filename info"
    "f_expirydate row =
       (if truthy_num (i_age info) then Some (of_int now + the (i_age info) * 3600) else None)"
    by (simp_all add: new_data_def)
  with row(1) tbl show ?thesis
    by auto
qed

text \<open>
  C10. With temporary uploads enabled, a request without an age (\<^verbatim>\<open>undefined\<close> or
  \<^verbatim>\<open>null\<close>) resolves to the first element of the allow-set, and the upload goes on with
  it when that element is 0. A file that is stored as a new row gets an expiry date only
  for a truthy age: the row of an age 0 (or of no age) has none, the row of another age
  \<open>a\<close> expires \<open>a\<close> hours after the clock's reading.
\<close>

theorem parseUploadAge_default_and_permanent:
  "(temporaryUploads cfg \<longrightarrow>
      parseUploadAge parseFloat cfg Undefined = Some (hd (temporaryUploadAges cfg)) \<and>
      parseUploadAge parseFloat cfg Null = Some (hd (temporaryUploadAges cfg)) \<and>
      (hd (temporaryUploadAges cfg) = 0 \<longrightarrow> upload_age parseFloat cfg Undefined = Inr (Some 0))) \<and>
   (storeFilesToDb md5_hex cfg req user now infoMap w = (Inr result, w') \<and>
    distinct (map i_filename infoMap) \<and> info \<in> set infoMap \<and>
    existing_for md5_hex user w info = None \<longrightarrow>
      (\<exists>row \<in> set (files_tbl w'). f_name row = i_filename info \<and>
         (i_age info = Some 0 \<longrightarrow> f_expirydate row = None) \<and>
         (f_expirydate row \<noteq> None \<longleftrightarrow> (\<exists>a. i_age info = Some a \<and> a \<noteq> 0)) \<and>
         (\<forall>a. i_age info = Some a \<and> a \<noteq> 0 \<longrightarrow>
            f_expirydate row = Some (of_int now + a * 3600))))"
proof (intro conjI impI)
  assume on: "temporaryUploads cfg"
  then show u: "parseUploadAge parseFloat cfg Undefined = Some (hd (temporaryUploadAges cfg))"
    and "parseUploadAge parseFloat cfg Null = Some (hd (temporaryUploadAges cfg))"
    by (simp_all add: parseUploadAge_def temporaryUploads_def split: list.splits)
  assume "hd (temporaryUploadAges cfg) = 0"
  with on u show "upload_age parseFloat cfg Undefined = Inr (Some 0)"
    by (cases "temporaryUploadAges cfg") (simp_all add: upload_age_def temporaryUploads_def truthy_num_def)
next
  assume h: "storeFilesToDb md5_hex cfg req user now infoMap w = (Inr result, w') \<and>
    distinct (map i_filename infoMap) \<and> info \<in> set infoMap \<and>
    existing_for md5_hex user w info = None"
  from h have h1: "storeFilesToDb md5_hex cfg req user now infoMap w = (Inr result, w')"
    and h2: "distinct (map i_filename infoMap)" and h3: "info \<in> set infoMap"
    and h4: "existing_for md5_hex user w info = None"
    by simp_all
  from storeFilesToDb_new_row [OF h1 h2 h3 h4]
  obtain row where row: "row \<in> set (files_tbl w')" "f_name row = i_filename info"
    "f_expirydate row =
       (if truthy_num (i_age info) then Some (of_int now + the (i_age info) * 3600) else None)"
    by auto
  have "(i_age info = Some 0 \<longrightarrow> f_expirydate row = None) \<and>
         (f_expirydate row \<noteq> None \<longleftrightarrow> (\<exists>a. i_age info = Some a \<and> a \<noteq> 0)) \<and>
         (\<forall>a. i_age info = Some a \<and> a \<noteq> 0 \<longrightarrow>
            f_expirydate row = Some (of_int now + a * 3600))"
    using row(3) by (auto simp: truthy_num_def split: option.splits)
  with row(1,2) show "\<exists>row \<in> set (files_tbl w'). f_name row = i_filename info \<and>
         (i_age info = Some 0 \<longrightarrow> f_expirydate row = None) \<and>
         (f_expirydate row \<noteq> None \<longleftrightarrow> (\<exists>a. i_age info = Some a \<and> a \<noteq> 0)) \<and>
         (\<forall>a. i_age info = Some a \<and> a \<noteq> 0 \<longrightarrow>
            f_expirydate row = Some (of_int now + a * 3600))"
    by blast
qed

text \<open>
  The allow-set \<^verbatim>\<open>[0, 24]\<close> and a request without an age: the age is 0, and the row of
  the stored file has no expiry date.
\<close>

theorem parseUploadAge_default_and_permanent_witness:
  "temporaryUploads (sample_config\<lparr>temporaryUploadAges := [0, 24]\<rparr>) \<and>
   parseUploadAge (\<lambda>s. None) (sample_config\<lparr>temporaryUploadAges := [0, 24]\<rparr>) Undefined = Some 0 \<and>
   upload_age (\<lambda>s. None) (sample_config\<lparr>temporaryUploadAges := [0, 24]\<rparr>) Undefined = Inr (Some 0) \<and>
   storeFilesToDb (\<lambda>c. c) (sample_config\<lparr>temporaryUploadAges := [0, 24]\<rparr>)
     \<lparr>req_nojs = False, req_ip = ''10.0.0.1''\<rparr> None 1600000100 [sample_info\<lparr>i_age := Some 0\<rparr>]
     (empty_world\<lparr>uploads := [''n3wN4me.txt'' \<mapsto> ''hello'']\<rparr>) =
     (Inr [\<lparr>s_name = ''n3wN4me.txt'', s_expirydate = None, s_original = Some ''notes.txt''\<rparr>],
      empty_world\<lparr>uploads := [''n3wN4me.txt'' \<mapsto> ''hello''],
        files_tbl := [\<lparr>f_name = ''n3wN4me.txt'', f_original = ''notes.txt'', f_type = ''text/plain'',
          f_size = 5, f_hash = ''hello'', f_ip = Some ''10.0.0.1'', f_timestamp = 1600000100,
          f_userid = None, f_albumid = None, f_expirydate = None\<rparr>]\<rparr>) \<and>
   (\<exists>row \<in> set [\<lparr>f_name = ''n3wN4me.txt'', f_original = ''notes.txt'', f_type = ''text/plain'',
          f_size = 5, f_hash = ''hello'', f_ip = Some ''10.0.0.1'', f_timestamp = 1600000100,
          f_userid = None, f_albumid = None, f_expirydate = None :: rat option\<rparr>].
      f_name row = ''n3wN4me.txt'' \<and> f_expirydate row = None)"
proof -
  let ?cfg = "sample_config\<lparr>temporaryUploadAges := [0, 24]\<rparr>"
  let ?req = "\<lparr>req_nojs = False, req_ip = ''10.0.0.1''\<rparr>"
  let ?info = "sample_info\<lparr>i_age := Some 0\<rparr>"
  let ?w = "empty_world\<lparr>uploads := [''n3wN4me.txt'' \<mapsto> ''hello'']\<rparr>"
  let ?row = "\<lparr>f_name = ''n3wN4me.txt'', f_original = ''notes.txt'', f_type = ''text/plain'',
          f_size = 5, f_hash = ''hello'', f_ip = Some ''10.0.0.1'', f_timestamp = 1600000100,
          f_userid = None, f_albumid = None, f_expirydate = None :: rat option\<rparr>"
  let ?res = "[\<lparr>s_name = ''n3wN4me.txt'', s_expirydate = None :: rat option, s_original = Some ''notes.txt''\<rparr>]"
  let ?w' = "empty_world\<lparr>uploads := [''n3wN4me.txt'' \<mapsto> ''hello''], files_tbl := [?row]\<rparr>"
  have on: "temporaryUploads ?cfg" and hd0: "hd (temporaryUploadAges ?cfg) = 0"
    by (simp_all add: temporaryUploads_def)
  have run: "storeFilesToDb (\<lambda>c. c) ?cfg ?req None 1600000100 [?info] ?w = (Inr ?res, ?w')"
    by (simp add: storeFilesToDb_def store_one_def find_existing_def new_data_def stored_of_def
        truthy_num_def sample_info_def sample_config_def empty_world_def Let_def)
  have hyp: "storeFilesToDb (\<lambda>c. c) ?cfg ?req None 1600000100 [?info] ?w = (Inr ?res, ?w') \<and>
    distinct (map i_filename [?info]) \<and> ?info \<in> set [?info] \<and>
    existing_for (\<lambda>c. c) None ?w ?info = None"
    using run by (simp add: existing_for_def find_existing_def sample_info_def empty_world_def)
  note T = parseUploadAge_default_and_permanent
    [where cfg = ?cfg and parseFloat = "\<lambda>s. None" and md5_hex = "\<lambda>c. c" and req = ?req
      and user = None and now = 1600000100 and infoMap = "[?info]" and w = ?w and result = ?res
      and w' = ?w' and info = ?info]
  from T [THEN conjunct1, rule_format, OF on] hd0
  have a: "parseUploadAge (\<lambda>s. None) ?cfg Undefined = Some 0"
    "upload_age (\<lambda>s. None) ?cfg Undefined = Inr (Some 0)"
    by simp_all
  from T [THEN conjunct2, rule_format, OF hyp]
  have b: "\<exists>row \<in> set [?row]. f_name row = ''n3wN4me.txt'' \<and> f_expirydate row = None"
    by (simp add: sample_info_def empty_world_def)
  from on a run b show ?thesis
    by blast
qed

subsection \<open>Chunk sessions\<close>

lemma digit_char_code: "d < 10 \<Longrightarrow> of_char (digit_char d) = (48 + d :: nat)"
proof -
  assume "d < 10"
  then consider "d = 0" | "d = 1" | "d = 2" | "d = 3" | "d = 4" | "d = 5" | "d = 6" | "d = 7"
    | "d = 8" | "d = 9"
    by atomize_elim arith
  then show ?thesis
    by cases (simp_all add: digit_char_def)
qed

lemma digit_char_less: "a < b \<Longrightarrow> b < 10 \<Longrightarrow> digit_char a < digit_char b"
  by (simp add: less_char_def digit_char_code)

lemma length_dec_pos: "0 < length (dec n)"
  by (subst dec.simps) simp

lemma dec_less_power: "n < 10 ^ length (dec n)"
proof (induction n rule: dec.induct)
  case (1 n)
  show ?case
  proof (cases "n < 10")
    case True
    then show ?thesis by (subst dec.simps) simp
  next
    case False
    with 1 have "n div 10 < 10 ^ length (dec (n div 10))" by simp
    then have "n < 10 * 10 ^ length (dec (n div 10))" by simp
    with False show ?thesis by (subst dec.simps) simp
  qed
qed

lemma length_dec_le: "0 < w \<Longrightarrow> n < 10 ^ w \<Longrightarrow> length (dec n) \<le> w"
proof (induction n arbitrary: w rule: dec.induct)
  case (1 n)
  show ?case
  proof (cases "n < 10")
    case True
    with 1(2) show ?thesis by (subst dec.simps) simp
  next
    case False
    from 1(2) obtain v where w: "w = Suc v" by (cases w) auto
    with False 1(3) have "0 < v" by (cases v) auto
    moreover from 1(3) w have "n div 10 < 10 ^ v" by simp
    ultimately have "length (dec (n div 10)) \<le> v" using 1(1) False by simp
    with False w show ?thesis by (subst dec.simps) simp
  qed
qed

lemma length_digs [simp]: "length (digs w n) = w"
  by (induction w arbitrary: n) simp_all

lemma digs_less: "i < j \<Longrightarrow> j < 10 ^ w \<Longrightarrow> digs w i < digs w j"
proof (induction w arbitrary: i j)
  case 0
  then show ?case by simp
next
  case (Suc w)
  from Suc.prems have le: "i div 10 \<le> j div 10" and jw: "j div 10 < 10 ^ w"
    by (simp_all add: div_le_mono)
  show ?case
  proof (cases "i div 10 < j div 10")
    case True
    from Suc.IH [OF True jw] have "(digs w (i div 10), digs w (j div 10)) \<in> lexord {(u, v). u < v}"
      by (simp add: list_less_def)
    then have "(digs w (i div 10) @ [digit_char (i mod 10)], digs w (j div 10) @ [digit_char (j mod 10)])
        \<in> lexord {(u, v). u < v}"
      by (rule lexord_sufI) simp
    then show ?thesis by (simp add: list_less_def)
  next
    case False
    with le have eq: "i div 10 = j div 10" by simp
    with Suc.prems(1) have "i mod 10 < j mod 10"
      by (metis div_mult_mod_eq nat_add_left_cancel_less)
    then have "digit_char (i mod 10) < digit_char (j mod 10)"
      by (rule digit_char_less) simp
    then have "([digit_char (i mod 10)], [digit_char (j mod 10)]) \<in> lexord {(u, v). u < v}"
      by simp
    then have "(digs w (j div 10) @ [digit_char (i mod 10)], digs w (j div 10) @ [digit_char (j mod 10)])
        \<in> lexord {(u, v). u < v}"
      by (rule lexord_append_leftI)
    with eq show ?thesis by (simp add: list_less_def)
  qed
qed

lemma digs_dec: "0 < w \<Longrightarrow> n < 10 ^ w \<Longrightarrow> digs w n = replicate (w - length (dec n)) CHR ''0'' @ dec n"
proof (induction w arbitrary: n)
  case 0
  then show ?case by simp
next
  case (Suc w)
  show ?case
  proof (cases "n < 10")
    case True
    then have d: "dec n = [digit_char n]" and z: "n div 10 = 0" "n mod 10 = n"
      by (simp_all add: dec.simps)
    show ?thesis
    proof (cases w)
      case 0
      with d z show ?thesis by simp
    next
      case (Suc v)
      then have "digs w 0 = replicate (w - length (dec 0)) CHR ''0'' @ dec 0"
        using Suc.IH [of 0] by simp
      moreover have "dec 0 = ''0''" by (simp add: dec.simps digit_char_def)
      ultimately have "digs w 0 = replicate w CHR ''0''"
        using Suc by (simp add: replicate_append_same)
      with d z show ?thesis by simp
    qed
  next
    case False
    then have d: "dec n = dec (n div 10) @ [digit_char (n mod 10)]"
      by (subst dec.simps) simp
    from False Suc.prems have "0 < w" by (cases w) auto
    moreover from Suc.prems have "n div 10 < 10 ^ w" by simp
    ultimately have "digs w (n div 10) = replicate (w - length (dec (n div 10))) CHR ''0'' @ dec (n div 10)"
      by (rule Suc.IH)
    with d show ?thesis by simp
  qed
qed

lemma width_of_pos: "0 < width_of tcc"
proof (cases tcc)
  case None
  then show ?thesis by (simp add: width_of_def)
next
  case (Some n)
  have "0 < length (dec (nat (- (n - 1))))" "0 < length (dec (nat (n - 1)))"
    by (rule length_dec_pos)+
  with Some show ?thesis by (simp add: width_of_def js_string_of_int_def)
qed

lemma chunk_filename_pad:
  assumes "length idx \<le> width_of tcc"
  shows "chunk_filename tcc (Some idx) = replicate (width_of tcc - length idx) CHR ''0'' @ idx"
  using assms by (simp add: chunk_filename_def width_of_def Let_def split: option.splits)

lemma chunk_filename_digs:
  assumes "i < 10 ^ width_of tcc"
  shows "chunk_filename tcc (Some (dec i)) = digs (width_of tcc) i"
  using assms width_of_pos [of tcc] by (simp add: chunk_filename_pad length_dec_le digs_dec)

lemma map_of_dir_write: "map_of (dir_write n c d) = (map_of d)(n \<mapsto> c)"
proof (rule ext)
  fix m
  have "map_of (filter (\<lambda>e. fst e \<noteq> n) d) m = (if m = n then None else map_of d m)"
    by (induction d) auto
  then show "map_of (dir_write n c d) m = ((map_of d)(n \<mapsto> c)) m"
    by (simp add: dir_write_def)
qed

lemma initChunks_present: "chunksData w uuid \<noteq> None \<Longrightarrow> initChunks uuid w = w"
  by (auto simp: initChunks_def)

lemma initChunks_idem: "initChunks uuid (initChunks uuid w) = initChunks uuid w"
  by (rule initChunks_present) (simp add: initChunks_def Let_def)

lemma received_init:
  "chunksData w uuid = None \<Longrightarrow> received uuid tcc payload w [] (initChunks uuid w)"
  by (auto simp: received_def initChunks_def Let_def)

lemma uploadChunks_received:
  assumes r: "received uuid tcc payload w js w1"
    and inj: "\<forall>i \<in> set js. chunk_filename tcc (Some (dec i)) \<noteq> chunk_filename tcc (Some (dec j))"
  shows "\<exists>w2. uploadChunks (fragment uuid tcc payload j) w1 = (Inr (), w2) \<and>
           received uuid tcc payload w (js @ [j]) w2"
proof -
  let ?name = "chunk_filename tcc (Some (dec j))"
  from r obtain dir where s: "chunksData w1 uuid =
       Some \<lparr>session_root = uuid,
             session_chunks = map (\<lambda>i. chunk_filename tcc (Some (dec i))) js,
             session_size = sum_list (map (\<lambda>i. length (payload i)) js)\<rparr>"
    and d: "chunkDirs w1 uuid = Some dir"
    and f: "\<forall>i \<in> set js. map_of dir (chunk_filename tcc (Some (dec i))) = Some (payload i)"
    and u: "uploads w1 = uploads w"
    by (auto simp: received_def)
  from s have init: "initChunks uuid w1 = w1"
    by (simp add: initChunks_present)
  let ?w2 = "w1\<lparr>chunksData := (chunksData w1)
                (uuid \<mapsto> \<lparr>session_root = uuid,
                   session_chunks = map (\<lambda>i. chunk_filename tcc (Some (dec i))) (js @ [j]),
                   session_size = sum_list (map (\<lambda>i. length (payload i)) (js @ [j]))\<rparr>),
              chunkDirs := (chunkDirs w1)(uuid \<mapsto> dir_write ?name (payload j) dir)\<rparr>"
  have run: "uploadChunks (fragment uuid tcc payload j) w1 = (Inr (), ?w2)"
    by (simp add: uploadChunks_def fragment_def Let_def init d s)
  have "received uuid tcc payload w (js @ [j]) ?w2"
    using f inj u by (auto simp: received_def map_of_dir_write)
  with run show ?thesis by blast
qed

lemma uploadChunks_first:
  "uploadChunks (fragment uuid tcc payload j) w =
   uploadChunks (fragment uuid tcc payload j) (initChunks uuid w)"
  by (simp add: uploadChunks_def fragment_def Let_def initChunks_idem)

lemma foldl_uploadChunks_received:
  assumes r: "received uuid tcc payload w js w1"
    and dist: "distinct (map (\<lambda>i. chunk_filename tcc (Some (dec i))) (js @ ks))"
  shows "received uuid tcc payload w (js @ ks)
           (foldl (\<lambda>w i. snd (uploadChunks (fragment uuid tcc payload i) w)) w1 ks)"
  using assms
proof (induction ks arbitrary: js w1)
  case Nil
  then show ?case by simp
next
  case (Cons k ks)
  from Cons.prems(2) have "chunk_filename tcc (Some (dec k)) \<notin> (\<lambda>i. chunk_filename tcc (Some (dec i))) ` set js"
    by auto
  then have "\<forall>i \<in> set js. chunk_filename tcc (Some (dec i)) \<noteq> chunk_filename tcc (Some (dec k))"
    by (metis imageI)
  from uploadChunks_received [OF Cons.prems(1) this] obtain w2 where
    run: "uploadChunks (fragment uuid tcc payload k) w1 = (Inr (), w2)"
    and r2: "received uuid tcc payload w (js @ [k]) w2"
    by blast
  from Cons.prems(2) have "distinct (map (\<lambda>i. chunk_filename tcc (Some (dec i))) ((js @ [k]) @ ks))"
    by simp
  from Cons.IH [OF r2 this] run show ?case by simp
qed

lemma append_chunks_all:
  "\<forall>i \<in> set js. map_of dir (name i) = Some (payload i) \<Longrightarrow>
     append_chunks dir (map name js) content = (None, content @ concat (map payload js))"
  by (induction js arbitrary: content) simp_all

lemma sorted_map_upt:
  assumes "\<And>i j. i < j \<Longrightarrow> j < k \<Longrightarrow> f i < (f j :: string)"
  shows "sorted (map f [0..<k])"
proof -
  have "sorted_wrt (\<lambda>i j. f i \<le> f j) [0..<k]"
    by (rule sorted_wrt_mono_rel [OF _ sorted_wrt_upt]) (auto intro: less_imp_le assms)
  then show ?thesis
    by (simp add: sorted_map)
qed

lemma sort_fragment_names:
  assumes mono: "\<And>i j. i < j \<Longrightarrow> j < k \<Longrightarrow> f i < (f j :: string)"
    and perm: "distinct js" "set js = {0..<k}"
  shows "sort (map f js) = map f [0..<k]"
proof (rule sorted_distinct_set_unique)
  have inj: "inj_on f {0..<k}"
  proof (rule inj_onI)
    fix i j assume "i \<in> {0..<k}" "j \<in> {0..<k}" "f i = f j"
    then show "i = j"
      using mono [of i j] mono [of j i] by (cases i j rule: linorder_cases) auto
  qed
  show "sorted (sort (map f js))" by simp
  show "distinct (sort (map f js))"
    using perm inj by (simp add: distinct_map)
  show "sorted (map f [0..<k])" by (rule sorted_map_upt) (rule mono)
  show "distinct (map f [0..<k])"
    using inj by (simp add: distinct_map)
  show "set (sort (map f js)) = set (map f [0..<k])"
    using perm by simp
qed

lemma combineChunks_received:
  assumes r: "received uuid tcc payload w js w1"
    and srt: "sort (map (\<lambda>i. chunk_filename tcc (Some (dec i))) js) =
              map (\<lambda>i. chunk_filename tcc (Some (dec i))) [0..<k]"
    and all: "set js = {0..<k}"
  shows "\<exists>w2. combineChunks destination uuid w1 = (Inr (), w2) \<and>
     uploads w2 destination =
       Some ((case uploads w destination of None \<Rightarrow> [] | Some b \<Rightarrow> b) @ concat (map payload [0..<k])) \<and>
     (\<exists>s. chunksData w2 uuid = Some s \<and>
        session_chunks s = map (\<lambda>i. chunk_filename tcc (Some (dec i))) [0..<k] \<and>
        session_size s = sum_list (map (\<lambda>i. length (payload i)) js))"
proof -
  let ?name = "\<lambda>i. chunk_filename tcc (Some (dec i))"
  let ?old = "case uploads w destination of None \<Rightarrow> [] | Some b \<Rightarrow> b"
  from r obtain dir where s: "chunksData w1 uuid =
       Some \<lparr>session_root = uuid, session_chunks = map ?name js,
             session_size = sum_list (map (\<lambda>i. length (payload i)) js)\<rparr>"
    and d: "chunkDirs w1 uuid = Some dir"
    and f: "\<forall>i \<in> set js. map_of dir (?name i) = Some (payload i)"
    and u: "uploads w1 = uploads w"
    by (auto simp: received_def)
  from f all have "\<forall>i \<in> set [0..<k]. map_of dir (?name i) = Some (payload i)"
    by simp
  then have app: "append_chunks dir (map ?name [0..<k]) ?old = (None, ?old @ concat (map payload [0..<k]))"
    by (rule append_chunks_all)
  let ?w2 = "w1\<lparr>chunksData := (chunksData w1)
                (uuid \<mapsto> \<lparr>session_root = uuid, session_chunks = map ?name [0..<k],
                   session_size = sum_list (map (\<lambda>i. length (payload i)) js)\<rparr>),
              uploads := (uploads w1)(destination \<mapsto> ?old @ concat (map payload [0..<k]))\<rparr>"
  have "combineChunks destination uuid w1 = (Inr (), ?w2)"
    by (simp add: combineChunks_def Let_def s u srt d app)
  then show ?thesis
    by (intro exI [of _ ?w2]) simp
qed

text \<open>
  C2, as amended. Let every fragment request of a session carry the total chunk count
  \<open>k\<close>, or let the count be absent and \<open>k\<close> be at most 10; let the fragments
  \<open>0..k-1\<close> arrive once each, in any order, labelled with their decimal index, for a
  session that is not yet registered. Then each fragment's file name is its decimal index
  padded with zeros to the width of the numeral of \<open>k - 1\<close> (1 when the count is
  absent), and \<^verbatim>\<open>combineChunks\<close> succeeds: it leaves the names sorted in index order and
  appends to the destination the payloads in index order.
\<close>

theorem chunk_reassembly:
  assumes count: "totalchunkcount = Some (int k) \<or> (totalchunkcount = None \<and> k \<le> 10)"
    and k: "0 < k"
    and perm: "distinct arrival" "set arrival = {0..<k}"
    and fresh: "chunksData w uuid = None"
  shows "(\<forall>i<k. chunk_filename totalchunkcount (Some (dec i)) =
            replicate ((case totalchunkcount of None \<Rightarrow> 1 | Some n \<Rightarrow> length (dec (k - 1)))
                         - length (dec i)) CHR ''0'' @ dec i \<and>
            length (chunk_filename totalchunkcount (Some (dec i))) =
              (case totalchunkcount of None \<Rightarrow> 1 | Some n \<Rightarrow> length (dec (k - 1)))) \<and>
         (\<exists>w'. combineChunks destination uuid
                  (foldl (\<lambda>w i. snd (uploadChunks (fragment uuid totalchunkcount payload i) w))
                     w arrival) = (Inr (), w') \<and>
               uploads w' destination =
                 Some ((case uploads w destination of None \<Rightarrow> [] | Some b \<Rightarrow> b) @
                       concat (map payload [0..<k])) \<and>
               (\<exists>s. chunksData w' uuid = Some s \<and>
                  session_chunks s =
                    map (\<lambda>i. chunk_filename totalchunkcount (Some (dec i))) [0..<k] \<and>
                  session_size s = (\<Sum>i<k. length (payload i))))"
proof -
  let ?W = "case totalchunkcount of None \<Rightarrow> 1 | Some n \<Rightarrow> length (dec (k - 1))"
  let ?name = "\<lambda>i. chunk_filename totalchunkcount (Some (dec i))"
  let ?up = "\<lambda>w i. snd (uploadChunks (fragment uuid totalchunkcount payload i) w)"
  from count k have W: "width_of totalchunkcount = ?W"
    by (auto simp: width_of_def js_string_of_int_def nat_diff_distrib')
  have fits: "i < 10 ^ ?W" if "i < k" for i
  proof (cases totalchunkcount)
    case None
    with count that show ?thesis by simp
  next
    case (Some n)
    from that have "i \<le> k - 1" by simp
    also have "k - 1 < 10 ^ length (dec (k - 1))" by (rule dec_less_power)
    finally show ?thesis using Some by simp
  qed
  have Wpos: "0 < ?W"
    using width_of_pos [of totalchunkcount] W by simp
  have len: "length (dec i) \<le> ?W" if "i < k" for i
    using length_dec_le [OF Wpos fits [OF that]] .
  have names: "?name i = replicate (?W - length (dec i)) CHR ''0'' @ dec i \<and> length (?name i) = ?W"
    if "i < k" for i
    using chunk_filename_pad [of "dec i" totalchunkcount] len [OF that] W by simp
  have mono: "?name i < ?name j" if "i < j" "j < k" for i j
  proof -
    from that have "i < k" by simp
    from chunk_filename_digs [of i totalchunkcount] chunk_filename_digs [of j totalchunkcount]
      fits [OF \<open>i < k\<close>] fits [OF \<open>j < k\<close>] W
    have "?name i = digs ?W i" "?name j = digs ?W j" by simp_all
    with digs_less [OF \<open>i < j\<close> fits [OF \<open>j < k\<close>]] show ?thesis by simp
  qed
  have srt: "sort (map ?name arrival) = map ?name [0..<k]"
    by (rule sort_fragment_names [OF mono perm])
  have "inj_on ?name {0..<k}"
  proof (rule inj_onI)
    fix i j assume "i \<in> {0..<k}" "j \<in> {0..<k}" "?name i = ?name j"
    then show "i = j"
      using mono [of i j] mono [of j i] by (cases i j rule: linorder_cases) auto
  qed
  with perm have "distinct (map ?name arrival)"
    by (simp add: distinct_map)
  then have dist: "distinct (map ?name ([] @ arrival))" by simp
  from k perm obtain a as where arr: "arrival = a # as"
    by (cases arrival) auto
  have start: "foldl ?up w arrival = foldl ?up (initChunks uuid w) arrival"
    by (simp add: arr uploadChunks_first [of uuid totalchunkcount payload a w] initChunks_idem
        uploadChunks_first [of uuid totalchunkcount payload a "initChunks uuid w", symmetric])
  from foldl_uploadChunks_received [OF received_init [OF fresh] dist]
  have rec: "received uuid totalchunkcount payload w arrival (foldl ?up w arrival)"
    by (simp add: start)
  have size: "sum_list (map (\<lambda>i. length (payload i)) arrival) = (\<Sum>i<k. length (payload i))"
    using perm by (simp add: sum_list_distinct_conv_sum_set atLeast0LessThan)
  from combineChunks_received [OF rec srt perm(2), of destination] size
  have "\<exists>w'. combineChunks destination uuid (foldl ?up w arrival) = (Inr (), w') \<and>
               uploads w' destination =
                 Some ((case uploads w destination of None \<Rightarrow> [] | Some b \<Rightarrow> b) @
                       concat (map payload [0..<k])) \<and>
               (\<exists>s. chunksData w' uuid = Some s \<and>
                  session_chunks s = map ?name [0..<k] \<and>
                  session_size s = (\<Sum>i<k. length (payload i)))"
    by simp
  with names show ?thesis by blast
qed

text \<open>
  Three fragments that arrive in the order 2, 0, 1 are combined in the order 0, 1, 2; of
  twelve fragments, fragment 3 is stored as \<^verbatim>\<open>03\<close>.
\<close>

theorem chunk_reassembly_witness:
  "(\<exists>w'. combineChunks ''f1le.bin'' ''u1''
            (foldl (\<lambda>w i. snd (uploadChunks
                 (fragment ''u1'' (Some 3) (\<lambda>i. if i = 0 then ''a'' else if i = 1 then ''bbb'' else ''cc'') i) w))
               empty_world [2, 0, 1]) = (Inr (), w') \<and>
          uploads w' ''f1le.bin'' = Some ''abbbcc'' \<and>
          (\<exists>s. chunksData w' ''u1'' = Some s \<and> session_chunks s = [''0'', ''1'', ''2''] \<and>
             session_size s = 6)) \<and>
   chunk_filename (Some 12) (Some (dec 3)) = ''03'' \<and>
   chunk_filename None (Some (dec 3)) = ''3''"
proof -
  let ?p = "\<lambda>i::nat. if i = 0 then ''a'' else if i = 1 then ''bbb'' else ''cc''"
  have up3: "[0..<3] = [0, 1, 2]" and up12: "(3::nat) < 12" and up10: "(3::nat) < 10"
    by (simp_all add: upt_rec)
  have h3: "Some 3 = Some (int 3) \<or> (Some 3 = None \<and> (3::nat) \<le> 10)" "(0::nat) < 3"
    "distinct [2, 0, 1::nat]" "set [2, 0, 1] = {0..<3::nat}" "chunksData empty_world ''u1'' = None"
    by (auto simp: empty_world_def)
  have h12: "Some 12 = Some (int 12) \<or> (Some 12 = None \<and> (12::nat) \<le> 10)" "(0::nat) < 12"
    "distinct [0..<12]" "set [0..<12] = {0..<12}" "chunksData empty_world ''u1'' = None"
    by (auto simp: empty_world_def)
  have h10: "None = Some (int 10) \<or> (None = None \<and> (10::nat) \<le> 10)" "(0::nat) < 10"
    "distinct [0..<10]" "set [0..<10] = {0..<10}" "chunksData empty_world ''u1'' = None"
    by (auto simp: empty_world_def)
  have d: "dec 3 = ''3''" "dec 11 = ''11''" "dec 2 = ''2''" "dec (Suc 0) = ''1''" "dec 0 = ''0''"
    by (simp_all add: dec.simps digit_char_def)
  have e1: "(case uploads empty_world ''f1le.bin'' of None \<Rightarrow> [] | Some b \<Rightarrow> b) @ concat (map ?p [0..<3]) = ''abbbcc''"
    by (simp add: up3 empty_world_def)
  have e2: "map (\<lambda>i. chunk_filename (Some 3) (Some (dec i))) [0..<3] = [''0'', ''1'', ''2'']"
    by (simp add: up3 d chunk_filename_def js_string_of_int_def)
  have e3: "(\<Sum>i<3. length (?p i)) = 6"
    by (simp add: lessThan_nat_numeral lessThan_Suc)
  from chunk_reassembly [OF h3, of "''f1le.bin''" ?p, THEN conjunct2]
  have a: "\<exists>w'. combineChunks ''f1le.bin'' ''u1''
            (foldl (\<lambda>w i. snd (uploadChunks (fragment ''u1'' (Some 3) ?p i) w)) empty_world [2, 0, 1]) =
              (Inr (), w') \<and>
          uploads w' ''f1le.bin'' = Some ''abbbcc'' \<and>
          (\<exists>s. chunksData w' ''u1'' = Some s \<and> session_chunks s = [''0'', ''1'', ''2''] \<and>
             session_size s = 6)"
    unfolding e1 e2 e3 .
  from chunk_reassembly [OF h12, of "''f1le.bin''" ?p, THEN conjunct1, rule_format, OF up12]
  have b: "chunk_filename (Some 12) (Some (dec 3)) = ''03''"
    by (simp add: d)
  from chunk_reassembly [OF h10, of "''f1le.bin''" ?p, THEN conjunct1, rule_format, OF up10]
  have c: "chunk_filename None (Some (dec 3)) = ''3''"
    by (simp add: d)
  from a b c show ?thesis by blast
qed

text \<open>
  C2 as stated fails when the total chunk count is absent and the session has more than
  ten fragments: the width is 1, \<^verbatim>\<open>slice(-1)\<close> keeps the last digit, and fragment 10 is
  stored under the name \<^verbatim>\<open>0\<close> of fragment 0, which is not the index padded to the
  width 1. With the fragments \<open>0..10\<close> arriving in index order, each holding its own
  numeral, the combined file is not the concatenation in index order.
\<close>

theorem chunk_reassembly_counterexample:
  "chunk_filename None (Some (dec 10)) = ''0'' \<and>
   chunk_filename None (Some (dec 10)) \<noteq> replicate (1 - length (dec 10)) CHR ''0'' @ dec 10 \<and>
   fst (combineChunks ''f1le.bin'' ''u1''
          (foldl (\<lambda>w i. snd (uploadChunks (fragment ''u1'' None dec i) w)) empty_world [0..<11])) =
     Inr () \<and>
   uploads (snd (combineChunks ''f1le.bin'' ''u1''
          (foldl (\<lambda>w i. snd (uploadChunks (fragment ''u1'' None dec i) w)) empty_world [0..<11])))
     ''f1le.bin'' = Some ''1010123456789'' \<and>
   concat (map dec [0..<11]) = ''012345678910''"
  by code_simp

subsection \<open>Finishing a chunked upload\<close>














subsection \<open>Filter translation of the listing\<close>

lemma seconds_of_day: "(now mod 86400000) div 1000 = (now div 1000) mod (86400 :: int)"
proof -
  have "now mod 86400000 = now mod (1000 * 86400)" by simp
  also have "\<dots> = 1000 * ((now div 1000) mod 86400) + now mod 1000"
    by (rule zmod_zmult2_eq) simp
  finally show ?thesis by simp
qed

lemma parseDate_day_only:
  assumes "match_date date = Some \<lparr>m1 = Some y, m2 = Some mo, m3 = Some d, m4 = None, m5 = None, m6 = None\<rparr>"
  shows "parseDate 0 now date 0 True =
           Some ((MakeDay (Number_of y) (Number_of (tl mo) - 1) (Number_of (tl d)) * 86400 +
                  (now div 1000) mod 86400) * 1000)"
proof -
  let ?D = "MakeDay (Number_of y) (Number_of (tl mo) - 1) (Number_of (tl d))"
  have "now mod 86400000 - (?D * 86400000 + now mod 86400000) mod 1000 =
        1000 * ((now mod 86400000) div 1000)"
  proof -
    have "?D * 86400000 = 1000 * (?D * 86400)" by simp
    then have "(?D * 86400000 + now mod 86400000) mod 1000 = (now mod 86400000) mod 1000"
      by (simp only: mod_mult_self4)
    then show ?thesis
      by (simp add: minus_mod_eq_mult_div)
  qed
  then show ?thesis
    using assms
    by (simp add: parseDate_def Let_def setFullYear_def setMilliseconds0_def msPerDay_def
        seconds_of_day algebra_simps)
qed

text \<open>
  C7. For the query object of the filter text
  \<^verbatim>\<open>ip:10.0.0.1 -ip:- date:2020/01/01-2020/02/01 orderby:date:d\<close>, with both offsets 0, the
  translation has the ip inclusion \<^verbatim>\<open>10.0.0.1\<close>, no flag for a \<^verbatim>\<open>NULL\<close> ip, and the
  ordering \<^verbatim>\<open>timestamp desc\<close>, as claimed. The date range is not the claimed one: no
  \<^verbatim>\<open>setHours\<close> runs for an endpoint without a time, so both endpoints keep the time of
  day of the clock; the range is the claimed one shifted by the seconds since midnight.
  At 12:28:20 it is \<open>[1577881700, 1580560100]\<close>.
\<close>

theorem translate_date_keeps_time_of_day:
  "translate 0 now 0 users_tbl sample_queries =
     Inr (\<lparr>fo_uploaders = [], fo_excludeUploaders = [],
           fo_queries =
             \<lparr>q_ip = Some [''10.0.0.1''], q_user = None, q_orderby = None,
              q_date = Some \<lparr>r_from = ENum (1577836800 + (now div 1000) mod 86400),
                             r_to = ENum (1580515200 + (now div 1000) mod 86400)\<rparr>,
              q_expiry = None, q_text = None, q_exclude_ip = Some [''-''],
              q_exclude_user = None, q_exclude_text = NoExclusion\<rparr>,
           fo_noip = False, fo_nouser = False\<rparr>,
          [''timestamp desc'']) \<and>
   q_date (fo_queries (fst (projr (translate 0 1600000100123 0 [] sample_queries)))) =
     Some \<lparr>r_from = ENum 1577881700, r_to = ENum 1580560100\<rparr>"
proof -
  have m1: "match_date ''2020/01/01'' =
      Some \<lparr>m1 = Some ''2020'', m2 = Some ''/01'', m3 = Some ''/01'', m4 = None, m5 = None, m6 = None\<rparr>"
    and m2: "match_date ''2020/02/01'' =
      Some \<lparr>m1 = Some ''2020'', m2 = Some ''/02'', m3 = Some ''/01'', m4 = None, m5 = None, m6 = None\<rparr>"
    by code_simp+
  have d1: "MakeDay (Number_of ''2020'') (Number_of ''01'' - 1) (Number_of ''01'') = 18262"
    and d2: "MakeDay (Number_of ''2020'') (Number_of ''02'' - 1) (Number_of ''01'') = 18293"
    by code_simp+
  have p1: "parseDate 0 t ''2020/01/01'' 0 True = Some ((1577836800 + (t div 1000) mod 86400) * 1000)"
    and p2: "parseDate 0 t ''2020/02/01'' 0 True = Some ((1580515200 + (t div 1000) mod 86400) * 1000)"
    for t
    by (simp_all add: parseDate_day_only [OF m1] parseDate_day_only [OF m2] d1 d2)
  have o: "orderby_key ''date:d'' = ''timestamp desc''"
    by code_simp
  have k: "keyword_values (Some [''10.0.0.1'']) = (Some [''10.0.0.1''], False)"
    "keyword_values None = (None, False)"
    by code_simp+
  have gen: "translate 0 t 0 us sample_queries =
     Inr (\<lparr>fo_uploaders = [], fo_excludeUploaders = [],
           fo_queries =
             \<lparr>q_ip = Some [''10.0.0.1''], q_user = None, q_orderby = None,
              q_date = Some \<lparr>r_from = ENum (1577836800 + (t div 1000) mod 86400),
                             r_to = ENum (1580515200 + (t div 1000) mod 86400)\<rparr>,
              q_expiry = None, q_text = None, q_exclude_ip = Some [''-''],
              q_exclude_user = None, q_exclude_text = NoExclusion\<rparr>,
           fo_noip = False, fo_nouser = False\<rparr>,
          [''timestamp desc''])" for t us
    by (simp add: translate_def sample_queries_def k o p1 p2 parse_range_def parse_from_def
        parse_to_def resolve_users_def)
  show ?thesis
    by (simp add: gen)
qed

lemma resolve_users_distinct:
  assumes used: "user \<noteq> None \<or> exclude_user \<noteq> None"
    and names: "distinct (map u_username users_tbl)"
    and dist: "distinct ((case user of None \<Rightarrow> [] | Some a \<Rightarrow> a) @
                       (case exclude_user of None \<Rightarrow> [] | Some a \<Rightarrow> a))"
    and found: "set ((case user of None \<Rightarrow> [] | Some a \<Rightarrow> a) @
                     (case exclude_user of None \<Rightarrow> [] | Some a \<Rightarrow> a))
                  \<subseteq> u_username ` set users_tbl"
  shows "resolve_users users_tbl user exclude_user =
           Inr (filter (\<lambda>u. user \<noteq> None \<and> u_username u \<in> set (the user))
                  (filter (\<lambda>u. u_username u \<in> set ((case user of None \<Rightarrow> [] | Some a \<Rightarrow> a) @
                     (case exclude_user of None \<Rightarrow> [] | Some a \<Rightarrow> a))) users_tbl),
                filter (\<lambda>u. \<not> (user \<noteq> None \<and> u_username u \<in> set (the user)))
                  (filter (\<lambda>u. u_username u \<in> set ((case user of None \<Rightarrow> [] | Some a \<Rightarrow> a) @
                     (case exclude_user of None \<Rightarrow> [] | Some a \<Rightarrow> a))) users_tbl))"
proof -
  let ?names = "(case user of None \<Rightarrow> [] | Some a \<Rightarrow> a) @
                (case exclude_user of None \<Rightarrow> [] | Some a \<Rightarrow> a)"
  let ?up = "filter (\<lambda>u. u_username u \<in> set ?names) users_tbl"
  have "distinct (map u_username ?up)"
    using names by (simp add: distinct_map_filter)
  moreover have "set (map u_username ?up) = set ?names"
    using found by auto
  ultimately have "length (map u_username ?up) = length ?names"
    using dist by (metis distinct_card)
  then have "length ?up = length ?names" by simp
  with used show ?thesis
    by (simp add: resolve_users_def Let_def)
qed

text \<open>
  C8. The translation fails whenever the number of rows found differs from the number
  of names supplied, also when every name matches an account: a name given twice to
  \<^verbatim>\<open>-user:\<close>, or once to \<^verbatim>\<open>user:\<close> and once to \<^verbatim>\<open>-user:\<close>, finds one row for two
  names, the list \<^verbatim>\<open>notFound\<close> is empty, and \<^verbatim>\<open>if (notFound)\<close> still answers with the
  error, which names no user.
\<close>

theorem resolve_users_duplicate_name:
  "resolve_users [\<lparr>u_id = 1, u_username = ''bob''\<rparr>] None (Some [''bob'', ''bob'']) =
     Inl (Msg ''Users not found: .'') \<and>
   resolve_users [\<lparr>u_id = 1, u_username = ''bob''\<rparr>] (Some [''bob'']) (Some [''bob'']) =
     Inl (Msg ''Users not found: .'') \<and>
   translate 0 1600000100123 0 [\<lparr>u_id = 1, u_username = ''bob''\<rparr>]
     (sample_queries\<lparr>q_exclude_user := Some [''bob'', ''bob'']\<rparr>) =
     Inl (Msg ''Users not found: .'') \<and>
   resolve_users [\<lparr>u_id = 1, u_username = ''bob''\<rparr>, \<lparr>u_id = 2, u_username = ''ann''\<rparr>]
     (Some [''ann'']) (Some [''bob'']) =
     Inr ([\<lparr>u_id = 2, u_username = ''ann''\<rparr>], [\<lparr>u_id = 1, u_username = ''bob''\<rparr>]) \<and>
   resolve_users [\<lparr>u_id = 1, u_username = ''bob''\<rparr>] (Some [''zed'']) (Some [''bob'', ''yan'']) =
     Inl (Msg ''Users not found: zed, yan.'')"
  by code_simp

text \<open>
  C9. An expiry range without a numeric \<^verbatim>\<open>to\<close> is compared with the \<^verbatim>\<open>from\<close> of the
  date range (line 963 reads \<^verbatim>\<open>queries.date.from\<close>): for the filter
  \<^verbatim>\<open>date:2019/01/01 expiry:2020/01/01\<close>, translated at midnight, the condition on
  \<^verbatim>\<open>expirydate\<close> is \<open>\<ge> 1546300800\<close>, the start of the date range, not
  \<open>\<ge> 1577836800\<close>. Without a date range the read throws. With a numeric \<^verbatim>\<open>to\<close>
  the condition is the range between the expiry's own endpoints.
\<close>

theorem filter_ranges_expiry_from:
  "(case translate 0 1599955200000 0 []
          (sample_queries\<lparr>q_date := Some \<lparr>r_from = EStr ''2019/01/01'', r_to = EUndefined\<rparr>,
             q_expiry := Some \<lparr>r_from = EStr ''2020/01/01'', r_to = EUndefined\<rparr>\<rparr>) of
      Inl e \<Rightarrow> Inl e
    | Inr (fo, ob) \<Rightarrow> filter_ranges (fo_queries fo)) =
     Inr [WhereGreaterEq ''timestamp'' (ENum 1546300800),
          WhereGreaterEq ''expirydate'' (ENum 1546300800)] \<and>
   (case translate 0 1599955200000 0 []
          (sample_queries\<lparr>q_date := None,
             q_expiry := Some \<lparr>r_from = EStr ''2020/01/01'', r_to = EUndefined\<rparr>\<rparr>) of
      Inl e \<Rightarrow> Inl e
    | Inr (fo, ob) \<Rightarrow> filter_ranges (fo_queries fo)) = Inl (FsError ''TypeError'') \<and>
   (case translate 0 1599955200000 0 []
          (sample_queries\<lparr>q_date := None,
             q_expiry := Some \<lparr>r_from = EStr ''2020/01/01'', r_to = EStr ''2020/02/01''\<rparr>\<rparr>) of
      Inl e \<Rightarrow> Inl e
    | Inr (fo, ob) \<Rightarrow> filter_ranges (fo_queries fo)) =
     Inr [WhereBetween ''expirydate'' (ENum 1577836800) (ENum 1580515200)]"
  by code_simp

text \<open>The three code paths at their inputs, from the theorems above.\<close>

theorem translate_date_keeps_time_of_day_witness:
  "q_date (fo_queries (fst (projr (translate 0 1600000100123 0 [] sample_queries)))) =
     Some \<lparr>r_from = ENum 1577881700, r_to = ENum 1580560100\<rparr>"
  using translate_date_keeps_time_of_day [of 1600000100123 "[]"] by simp

theorem resolve_users_duplicate_name_witness:
  "resolve_users [\<lparr>u_id = 1, u_username = ''bob''\<rparr>] None (Some [''bob'', ''bob'']) =
     Inl (Msg ''Users not found: .'')"
  using resolve_users_duplicate_name by simp

theorem filter_ranges_expiry_from_witness:
  "(case translate 0 1599955200000 0 []
          (sample_queries\<lparr>q_date := None,
             q_expiry := Some \<lparr>r_from = EStr ''2020/01/01'', r_to = EUndefined\<rparr>\<rparr>) of
      Inl e \<Rightarrow> Inl e
    | Inr (fo, ob) \<Rightarrow> filter_ranges (fo_queries fo)) = Inl (FsError ''TypeError'')"
  using filter_ranges_expiry_from by simp

end
